theory Spec2Isabelle
  imports Main "HOL-Library.AList"
begin

section \<open>Python strings\<close>

text \<open>
  The program is \<^verbatim>\<open>pmcfg.py\<close>, read under Python 3 (version 3.12 where versions differ). A
  Python \<^verbatim>\<open>str\<close> is modelled as a \<^typ>\<open>string\<close>: a list of characters with code points 0 to
  255. The character classes below are those of Python 3 on these code points.
\<close>

definition ord :: "char \<Rightarrow> nat" where
  "ord c = of_char c"

text \<open>\<^verbatim>\<open>c.isspace()\<close>, which is also the class \<^verbatim>\<open>\s\<close> of \<^verbatim>\<open>re\<close> and the separator of
  \<^verbatim>\<open>str.split(None)\<close> and \<^verbatim>\<open>str.strip()\<close>: tab to carriage return, the four
  separators 0x1c to 0x1f, the space, NEL (0x85) and the no-break space (0xa0).\<close>

definition isspace_char :: "char \<Rightarrow> bool" where
  "isspace_char c =
     (let n = ord c in (9 \<le> n \<and> n \<le> 13) \<or> (28 \<le> n \<and> n \<le> 32) \<or> n = 133 \<or> n = 160)"

text \<open>\<^verbatim>\<open>\d\<close> of \<^verbatim>\<open>re\<close>: a decimal digit; below 256 these are 0 to 9.\<close>

definition isdigit_char :: "char \<Rightarrow> bool" where
  "isdigit_char c = (let n = ord c in 48 \<le> n \<and> n \<le> 57)"

text \<open>\<^verbatim>\<open>c.isalnum()\<close>: a letter, a decimal digit, a digit or a numeric character.\<close>

definition isalnum_char :: "char \<Rightarrow> bool" where
  "isalnum_char c =
     (let n = ord c in
        (48 \<le> n \<and> n \<le> 57) \<or> (65 \<le> n \<and> n \<le> 90) \<or> (97 \<le> n \<and> n \<le> 122) \<or>
        n = 170 \<or> n = 178 \<or> n = 179 \<or> n = 181 \<or> n = 185 \<or> n = 186 \<or>
        (188 \<le> n \<and> n \<le> 190) \<or> (192 \<le> n \<and> n \<le> 214) \<or>
        (216 \<le> n \<and> n \<le> 246) \<or> (248 \<le> n \<and> n \<le> 255))"

text \<open>\<^verbatim>\<open>s.isspace()\<close> on a string: not empty, and every character is white space.\<close>

definition isspace :: "string \<Rightarrow> bool" where
  "isspace s = (s \<noteq> [] \<and> list_all isspace_char s)"

definition lstrip :: "string \<Rightarrow> string" where
  "lstrip s = dropWhile isspace_char s"

definition rstrip :: "string \<Rightarrow> string" where
  "rstrip s = rev (dropWhile isspace_char (rev s))"

definition strip :: "string \<Rightarrow> string" where
  "strip s = rstrip (lstrip s)"

text \<open>\<^verbatim>\<open>sep.join(xs)\<close>.\<close>

fun join :: "string \<Rightarrow> string list \<Rightarrow> string" where
  "join sep [] = []"
| "join sep [x] = x"
| "join sep (x # y # ys) = x @ sep @ join sep (y # ys)"

text \<open>
  \<^verbatim>\<open>s.split(None, maxsplit)\<close>, as CPython computes it: skip white space; stop at the end of
  the string; once \<^verbatim>\<open>maxsplit\<close> words are cut, the rest of the string (its leading white
  space skipped, its trailing white space kept) is the last piece, if it is not empty. The
  count is \<open>None\<close> for a negative \<^verbatim>\<open>maxsplit\<close> (no limit).
\<close>

function split_ws :: "nat option \<Rightarrow> string \<Rightarrow> string list" where
  "split_ws maxcount s =
     (let s' = dropWhile isspace_char s in
      if s' = [] then []
      else if maxcount = Some 0 then [s']
      else takeWhile (\<lambda>c. \<not> isspace_char c) s' #
           split_ws (map_option (\<lambda>n. n - 1) maxcount) (dropWhile (\<lambda>c. \<not> isspace_char c) s'))"
  by pat_completeness auto
termination
proof (relation "measure (\<lambda>(m, s). length s)", goal_cases)
  case 1
  show ?case by simp
next
  case (2 maxcount s s')
  then have ne: "s' \<noteq> []" and s': "s' = dropWhile isspace_char s"
    by simp_all
  have c: "\<not> isspace_char (hd s')"
    using ne unfolding s' by (rule hd_dropWhile)
  have "dropWhile (\<lambda>c. \<not> isspace_char c) s' = dropWhile (\<lambda>c. \<not> isspace_char c) (tl s')"
    using ne c by (cases s') simp_all
  then have "length (dropWhile (\<lambda>c. \<not> isspace_char c) s') \<le> length (tl s')"
    using length_dropWhile_le [of "\<lambda>c. \<not> isspace_char c" "tl s'"] by (simp del: length_tl)
  moreover have "length s' \<le> length s"
    unfolding s' by (rule length_dropWhile_le)
  moreover have "length (tl s') < length s'"
    using ne by (cases s') simp_all
  ultimately show ?case by simp
qed

declare split_ws.simps [simp del]

definition split :: "string \<Rightarrow> int \<Rightarrow> string list" where
  "split s maxsplit = split_ws (if maxsplit < 0 then None else Some (nat maxsplit)) s"

text \<open>Characters that an Isabelle string literal cannot hold as they are.\<close>

abbreviation BACKSLASH :: char where "BACKSLASH \<equiv> CHR 0x5C"
abbreviation QUOTE :: char where "QUOTE \<equiv> CHR 0x27"
abbreviation DQUOTE :: char where "DQUOTE \<equiv> CHR 0x22"
abbreviation NEWLINE :: char where "NEWLINE \<equiv> CHR 0x0A"
abbreviation RETURN :: char where "RETURN \<equiv> CHR 0x0D"
abbreviation TAB :: char where "TAB \<equiv> CHR 0x09"
abbreviation NUL :: char where "NUL \<equiv> CHR 0x00"

subsection \<open>Numbers and text\<close>

definition digit_char :: "nat \<Rightarrow> char" where
  "digit_char n = char_of (48 + n)"

definition digit_val :: "char \<Rightarrow> nat" where
  "digit_val c = ord c - 48"

text \<open>\<^verbatim>\<open>str(n)\<close> of an integer: its decimal digits, \<^verbatim>\<open>-\<close> first when it is negative.\<close>

fun str_nat :: "nat \<Rightarrow> string" where
  "str_nat n = (if n < 10 then [digit_char n] else str_nat (n div 10) @ [digit_char (n mod 10)])"

declare str_nat.simps [simp del]

definition str_int :: "int \<Rightarrow> string" where
  "str_int i = (if i < 0 then CHR ''-'' # str_nat (nat (- i)) else str_nat (nat i))"

text \<open>
  The digits of a number as \<^verbatim>\<open>int()\<close> and \<^verbatim>\<open>float()\<close> read them: a digit, then digits each
  of which one underscore may precede. \<open>dec_digits\<close> reads them to the end of the string and
  gives their value; \<open>digitpart\<close> reads as many as there are and gives what follows them.
\<close>

fun dec_digits :: "nat \<Rightarrow> string \<Rightarrow> nat option" where
  "dec_digits acc [] = Some acc"
| "dec_digits acc [c] = (if isdigit_char c then Some (10 * acc + digit_val c) else None)"
| "dec_digits acc (c # d # cs) =
     (if isdigit_char c then dec_digits (10 * acc + digit_val c) (d # cs)
      else if c = CHR ''_'' \<and> isdigit_char d then dec_digits (10 * acc + digit_val d) cs
      else None)"

definition py_nat :: "string \<Rightarrow> nat option" where
  "py_nat s =
     (case s of [] \<Rightarrow> None
      | c # cs \<Rightarrow> if isdigit_char c then dec_digits (digit_val c) cs else None)"

text \<open>
  \<^verbatim>\<open>int(s)\<close> in base 10, \<open>None\<close> where Python raises ValueError: white space around the
  number is dropped, a sign may come first. Python's integers are unbounded; the limit the
  interpreter can set on the number of digits is not modelled.
\<close>

definition py_int :: "string \<Rightarrow> int option" where
  "py_int s =
     (case strip s of [] \<Rightarrow> None
      | c # cs \<Rightarrow>
          if c = CHR ''-'' then map_option (\<lambda>n. - int n) (py_nat cs)
          else if c = CHR ''+'' then map_option int (py_nat cs)
          else map_option int (py_nat (c # cs)))"

fun digitpart_rest :: "string \<Rightarrow> string" where
  "digitpart_rest [] = []"
| "digitpart_rest [c] = (if isdigit_char c then [] else [c])"
| "digitpart_rest (c # d # cs) =
     (if isdigit_char c then digitpart_rest (d # cs)
      else if c = CHR ''_'' \<and> isdigit_char d then digitpart_rest cs
      else c # d # cs)"

definition digitpart :: "string \<Rightarrow> string option" where
  "digitpart s =
     (case s of [] \<Rightarrow> None
      | c # cs \<Rightarrow> if isdigit_char c then Some (digitpart_rest cs) else None)"

definition exponent_ok :: "string \<Rightarrow> bool" where
  "exponent_ok r =
     (case r of [] \<Rightarrow> True
      | e # r' \<Rightarrow>
          (e = CHR ''e'' \<or> e = CHR ''E'') \<and>
          digitpart (case r' of [] \<Rightarrow> []
                     | sg # t \<Rightarrow> if sg = CHR ''+'' \<or> sg = CHR ''-'' then t else r') = Some [])"

definition float_number :: "string \<Rightarrow> bool" where
  "float_number s =
     (case digitpart s of
        Some r \<Rightarrow>
          (case r of [] \<Rightarrow> True
           | p # r' \<Rightarrow>
               if p = CHR ''.'' then
                 (case digitpart r' of Some r'' \<Rightarrow> exponent_ok r'' | None \<Rightarrow> exponent_ok r')
               else exponent_ok r)
      | None \<Rightarrow>
          (case s of [] \<Rightarrow> False
           | p # r \<Rightarrow>
               p = CHR ''.'' \<and> (case digitpart r of Some r' \<Rightarrow> exponent_ok r' | None \<Rightarrow> False)))"

definition lower_char :: "char \<Rightarrow> char" where
  "lower_char c = (let n = ord c in if 65 \<le> n \<and> n \<le> 90 then char_of (n + 32) else c)"

text \<open>
  The texts \<^verbatim>\<open>float()\<close> accepts, white space around them dropped: a sign, then a decimal
  number with an optional fraction and exponent, or \<^verbatim>\<open>inf\<close>, \<^verbatim>\<open>infinity\<close> or \<^verbatim>\<open>nan\<close> in
  any case.
\<close>

definition float_syntax :: "string \<Rightarrow> bool" where
  "float_syntax s =
     (let t = strip s;
          u = (case t of [] \<Rightarrow> []
               | sg # r \<Rightarrow> if sg = CHR ''+'' \<or> sg = CHR ''-'' then r else t)
      in float_number u \<or> map lower_char u \<in> set [''inf'', ''infinity'', ''nan''])"

text \<open>
  A score is a Python \<^verbatim>\<open>int\<close> or \<^verbatim>\<open>float\<close>. Floating-point values are not computed: a
  float score is kept as the text that \<^verbatim>\<open>float()\<close> accepted.
\<close>

datatype score = IntScore int | FloatScore string

definition py_float :: "string \<Rightarrow> score option" where
  "py_float s = (if float_syntax s then Some (FloatScore (strip s)) else None)"

subsection \<open>Exceptions\<close>

text \<open>
  An exception is its class and its message (\<^verbatim>\<open>err.args[0]\<close>). The messages the program
  builds are modelled to the letter; the interpreter's own messages are given without the
  positions they quote. \<open>Unmodelled\<close> is no exception of Python: it marks a call of
  \<^verbatim>\<open>write_grammar\<close> whose text leaves the model (the \<^verbatim>\<open>repr\<close> of a character above code
  point 255, the text of a floating-point number). Reading a grammar never gives it.
\<close>

datatype error =
    SyntaxError string
  | ValueError string
  | TypeError string
  | KeyError string
  | IndexError string
  | NameError string
  | RuntimeError string
  | Unmodelled string

subsection \<open>\<^verbatim>\<open>repr\<close> of a string\<close>

definition hex_char :: "nat \<Rightarrow> char" where
  "hex_char n = (if n < 10 then char_of (48 + n) else char_of (87 + n))"

definition hex_escape :: "char \<Rightarrow> string" where
  "hex_escape c = [BACKSLASH, CHR ''x'', hex_char (ord c div 16), hex_char (ord c mod 16)]"

definition repr_char :: "char \<Rightarrow> char \<Rightarrow> string" where
  "repr_char q c =
     (let n = ord c in
      if c = q \<or> c = BACKSLASH then [BACKSLASH, c]
      else if c = TAB then [BACKSLASH, CHR ''t'']
      else if c = NEWLINE then [BACKSLASH, CHR ''n'']
      else if c = RETURN then [BACKSLASH, CHR ''r'']
      else if n < 32 \<or> n = 127 then hex_escape c
      else if n < 127 then [c]
      else if n \<le> 160 \<or> n = 173 then hex_escape c
      else [c])"

text \<open>\<^verbatim>\<open>repr(s)\<close>, which is also \<^verbatim>\<open>"%r" % (s,)\<close>: single quotes, unless the string holds a
  single quote and no double quote; the quote, the backslash and the characters that are not
  printable are escaped.\<close>

definition repr :: "string \<Rightarrow> string" where
  "repr s =
     (let q = (if QUOTE \<in> set s \<and> DQUOTE \<notin> set s then DQUOTE else QUOTE)
      in q # concat (map (repr_char q) s) @ [q])"

subsection \<open>\<^verbatim>\<open>eval\<close> of a string literal\<close>

text \<open>
  \<^verbatim>\<open>read_sequence\<close> calls \<^verbatim>\<open>eval\<close> on a quoted token, which is the text of one Python
  string literal. The interpreter refuses a source that holds a NUL; it reads a carriage
  return (and a line feed after it) as one line feed; a line feed in the literal that no
  backslash precedes ends the line before the literal is closed; then the escapes are
  decoded.
\<close>

fun translate_newlines :: "string \<Rightarrow> string" where
  "translate_newlines [] = []"
| "translate_newlines [c] = (if c = RETURN then [NEWLINE] else [c])"
| "translate_newlines (c # d # cs) =
     (if c = RETURN then NEWLINE # translate_newlines (if d = NEWLINE then cs else d # cs)
      else c # translate_newlines (d # cs))"

fun raw_newline :: "string \<Rightarrow> bool" where
  "raw_newline [] = False"
| "raw_newline [c] = (c = NEWLINE)"
| "raw_newline (c # d # cs) =
     (if c = BACKSLASH then raw_newline cs else c = NEWLINE \<or> raw_newline (d # cs))"

definition ishex_char :: "char \<Rightarrow> bool" where
  "ishex_char c =
     (let n = ord c in (48 \<le> n \<and> n \<le> 57) \<or> (65 \<le> n \<and> n \<le> 70) \<or> (97 \<le> n \<and> n \<le> 102))"

definition hex_val :: "char \<Rightarrow> nat" where
  "hex_val c = (let n = ord c in if n \<le> 57 then n - 48 else if n \<le> 70 then n - 55 else n - 87)"

definition hex_value :: "string \<Rightarrow> nat" where
  "hex_value hs = foldl (\<lambda>acc h. 16 * acc + hex_val h) 0 hs"

definition isoct_char :: "char \<Rightarrow> bool" where
  "isoct_char c = (let n = ord c in 48 \<le> n \<and> n \<le> 55)"

definition oct_value :: "string \<Rightarrow> nat" where
  "oct_value os = foldl (\<lambda>acc d. 8 * acc + digit_val d) 0 os"

text \<open>The escapes of one letter: \<^verbatim>\<open>\a \b \f \n \r \t \v\<close>, and the three that stand for
  themselves.\<close>

definition simple_escape :: "char \<Rightarrow> char option" where
  "simple_escape d =
     (if d = BACKSLASH \<or> d = QUOTE \<or> d = DQUOTE then Some d
      else if d = CHR ''a'' then Some (CHR 0x07)
      else if d = CHR ''b'' then Some (CHR 0x08)
      else if d = CHR ''f'' then Some (CHR 0x0C)
      else if d = CHR ''n'' then Some NEWLINE
      else if d = CHR ''r'' then Some RETURN
      else if d = CHR ''t'' then Some TAB
      else if d = CHR ''v'' then Some (CHR 0x0B)
      else None)"

text \<open>
  The value of a string literal is a Python \<^verbatim>\<open>str\<close> that may hold any character, whatever
  the characters of the source: it is modelled as the list of its code points. \<open>ustr\<close>
  gives the code points of a string of the model.
\<close>

definition ustr :: "string \<Rightarrow> nat list" where
  "ustr s = map ord s"

definition then_decode :: "error + nat list \<Rightarrow> error + nat list \<Rightarrow> error + nat list" where
  "then_decode first rest =
     (case first of Inl e \<Rightarrow> Inl e
      | Inr a \<Rightarrow> (case rest of Inl e \<Rightarrow> Inl e | Inr b \<Rightarrow> Inr (a @ b)))"

text \<open>
  The escapes are decoded from left to right. The escape \<^verbatim>\<open>\N{name}\<close> denotes the character
  that the Unicode database of the interpreter gives for the name. The database is not part
  of the program: it is the parameter \<open>names\<close>, which gives the code point of a name, or
  \<open>None\<close> for a name the database does not have. A backslash before a character that
  starts no escape stays in the value with that character; the interpreter warns of it, and
  of an octal escape above \<^verbatim>\<open>\377\<close>, and goes on.
\<close>

function decode_escapes :: "(string \<Rightarrow> nat option) \<Rightarrow> string \<Rightarrow> error + nat list" where
  "decode_escapes names [] = Inr []"
| "decode_escapes names [c] =
     (if c = BACKSLASH then Inl (SyntaxError ''unterminated string literal (detected at line 1)'')
      else Inr [ord c])"
| "decode_escapes names (c # d # ds) =
     (if c \<noteq> BACKSLASH then then_decode (Inr [ord c]) (decode_escapes names (d # ds))
      else if d = NEWLINE then decode_escapes names ds
      else if simple_escape d \<noteq> None then
        then_decode (Inr [ord (the (simple_escape d))]) (decode_escapes names ds)
      else if isoct_char d then
        (let os = d # takeWhile isoct_char (take 2 ds)
         in then_decode (Inr [oct_value os]) (decode_escapes names (drop (length os - 1) ds)))
      else if d = CHR ''x'' then
        (if 2 \<le> length ds \<and> list_all ishex_char (take 2 ds)
         then then_decode (Inr [hex_value (take 2 ds)]) (decode_escapes names (drop 2 ds))
         else Inl (SyntaxError (''(unicode error) truncated '' @ BACKSLASH # ''xXX escape'')))
      else if d = CHR ''u'' then
        (if 4 \<le> length ds \<and> list_all ishex_char (take 4 ds)
         then then_decode (Inr [hex_value (take 4 ds)]) (decode_escapes names (drop 4 ds))
         else Inl (SyntaxError (''(unicode error) truncated '' @ BACKSLASH # ''uXXXX escape'')))
      else if d = CHR ''U'' then
        (if 8 \<le> length ds \<and> list_all ishex_char (take 8 ds)
         then (if hex_value (take 8 ds) > 1114111
               then Inl (SyntaxError ''(unicode error) illegal Unicode character'')
               else then_decode (Inr [hex_value (take 8 ds)]) (decode_escapes names (drop 8 ds)))
         else Inl (SyntaxError (''(unicode error) truncated '' @ BACKSLASH # ''UXXXXXXXX escape'')))
      else if d = CHR ''N'' then
        (if ds \<noteq> [] \<and> hd ds = CHR ''{'' \<and> CHR ''}'' \<in> set (tl ds) \<and> hd (tl ds) \<noteq> CHR ''}''
         then
           (case names (takeWhile (\<lambda>x. x \<noteq> CHR ''}'') (tl ds)) of
              None \<Rightarrow> Inl (SyntaxError ''(unicode error) unknown Unicode character name'')
            | Some n \<Rightarrow>
                then_decode (Inr [n])
                  (decode_escapes names (tl (dropWhile (\<lambda>x. x \<noteq> CHR ''}'') (tl ds)))))
         else Inl (SyntaxError (''(unicode error) malformed '' @ BACKSLASH # ''N character escape'')))
      else then_decode (Inr [ord BACKSLASH, ord d]) (decode_escapes names ds))"
  by pat_completeness auto
termination
proof (relation "measure (\<lambda>(names, s). length s)", goal_cases)
  case (9 names c d ds n)
  have "length (tl (dropWhile (\<lambda>x. x \<noteq> CHR ''}'') (tl ds))) \<le> length ds"
    by (metis diff_le_self le_trans length_dropWhile_le length_tl)
  then show ?case by simp
qed auto

declare decode_escapes.simps [simp del]

definition py_eval :: "(string \<Rightarrow> nat option) \<Rightarrow> string \<Rightarrow> error + nat list" where
  "py_eval names tok =
     (if NUL \<in> set tok then Inl (SyntaxError ''source code string cannot contain null bytes'')
      else
        (let body = translate_newlines (butlast (tl tok)) in
         if raw_newline body
         then Inl (SyntaxError ''unterminated string literal (detected at line 1)'')
         else decode_escapes names body))"

section \<open>The program\<close>

subsection \<open>Keywords and lexical helpers\<close>

definition PRAGMA :: string where "PRAGMA = '':''"
definition RULE :: string where "RULE = '':''"
definition RULEARROW :: string where "RULEARROW = ''<-''"
definition LINEARIZATION :: string where "LINEARIZATION = ''=''"
definition SEQUENCE :: string where "SEQUENCE = ''->''"
definition COMMENT :: string where "COMMENT = ''#%/-;''"

fun is_identifier :: "string \<Rightarrow> bool" where
  "is_identifier [] = False"
| "is_identifier (c # cs) = ((isalnum_char c \<or> c = CHR ''_'') \<and> \<not> list_ex isspace_char cs)"

definition whitespace_split :: "string \<Rightarrow> int \<Rightarrow> string list" where
  "whitespace_split s nrsplits =
     (let splits = split s nrsplits in
      if nrsplits \<ge> 0 \<and> int (length splits) \<le> nrsplits
      then splits @ replicate (nat (nrsplits + 1 - int (length splits))) []
      else splits)"

subsection \<open>The sequence tokenizer\<close>

text \<open>
  A token of a sequence is a terminal string, the value of a string literal, or a pair
  \<^verbatim>\<open>(arg, ref)\<close> of integers.
\<close>

datatype token = Terminal "nat list" | ArgRef int int

text \<open>
  \<^verbatim>\<open>SEQ_REGEXP.match(seqstr, pos)\<close>. The expression is one of three alternatives, told apart
  by the first character, and then white space or the end of the string:
  \<^item> a double quote, then characters other than the quote and the backslash, or a backslash
    and any character but a line feed, up to the next double quote;
  \<^item> the same between single quotes;
  \<^item> digits, a colon, digits.
  Each part matches in one way only, so the first match the engine finds is the only one.
  \<open>quoted_end q cs\<close> is the length of the text after the opening quote, up to the closing
  quote and with it.
\<close>

fun quoted_end :: "char \<Rightarrow> string \<Rightarrow> nat option" where
  "quoted_end q [] = None"
| "quoted_end q [c] = (if c = q then Some 1 else None)"
| "quoted_end q (c # d # cs) =
     (if c = q then Some 1
      else if c = BACKSLASH then
        (if d = NEWLINE then None else map_option (\<lambda>n. n + 2) (quoted_end q cs))
      else map_option Suc (quoted_end q (d # cs)))"

text \<open>The end of a token, \<^verbatim>\<open>(?: \s+ | $)\<close>: the length of the white space that follows, or
  nothing at the end of the string.\<close>

definition token_end :: "string \<Rightarrow> nat option" where
  "token_end after =
     (case after of [] \<Rightarrow> Some 0
      | c # cs \<Rightarrow> if isspace_char c then Some (length (takeWhile isspace_char after)) else None)"

record re_match =
  group1 :: "string option"
  group2 :: "string option"
  group3 :: "string option"
  m_end :: nat

definition SEQ_REGEXP_match :: "string \<Rightarrow> nat \<Rightarrow> re_match option" where
  "SEQ_REGEXP_match seqstr pos =
     (case drop pos seqstr of [] \<Rightarrow> None
      | c # cs \<Rightarrow>
          if c = DQUOTE \<or> c = QUOTE then
            (case quoted_end c cs of None \<Rightarrow> None
             | Some n \<Rightarrow>
                 (case token_end (drop n cs) of None \<Rightarrow> None
                  | Some w \<Rightarrow>
                      Some \<lparr>group1 = Some (c # take n cs), group2 = None, group3 = None,
                            m_end = pos + 1 + n + w\<rparr>))
          else if isdigit_char c then
            (let arg = takeWhile isdigit_char (c # cs);
                 r = dropWhile isdigit_char (c # cs)
             in case r of [] \<Rightarrow> None
                | colon # r' \<Rightarrow>
                    if colon \<noteq> CHR '':'' \<or> takeWhile isdigit_char r' = [] then None
                    else
                      (case token_end (dropWhile isdigit_char r') of None \<Rightarrow> None
                       | Some w \<Rightarrow>
                           Some \<lparr>group1 = None, group2 = Some arg,
                                 group3 = Some (takeWhile isdigit_char r'),
                                 m_end = pos + length arg + 1 +
                                         length (takeWhile isdigit_char r') + w\<rparr>))
          else None)"

lemma SEQ_REGEXP_match_end:
  assumes "SEQ_REGEXP_match seqstr pos = Some m"
  shows "pos < m_end m"
proof (cases "drop pos seqstr")
  case Nil
  with assms show ?thesis by (simp add: SEQ_REGEXP_match_def)
next
  case (Cons c cs)
  with assms show ?thesis
    by (auto simp: SEQ_REGEXP_match_def Let_def
             split: if_splits option.splits list.splits)
qed

text \<open>The token of a match: \<^verbatim>\<open>eval\<close> of the quoted text, or the pair of the two numbers.\<close>

definition match_token :: "(string \<Rightarrow> nat option) \<Rightarrow> re_match \<Rightarrow> error + token" where
  "match_token names m =
     (case group1 m of
        None \<Rightarrow>
          (case (py_int (case group2 m of None \<Rightarrow> [] | Some a \<Rightarrow> a),
                 py_int (case group3 m of None \<Rightarrow> [] | Some r \<Rightarrow> r)) of
             (Some a, Some r) \<Rightarrow> Inr (ArgRef a r)
           | _ \<Rightarrow> Inl (ValueError ''invalid literal for int() with base 10''))
      | Some tok \<Rightarrow>
          (case py_eval names tok of Inl e \<Rightarrow> Inl e | Inr s \<Rightarrow> Inr (Terminal s)))"

function read_sequence_loop ::
  "(string \<Rightarrow> nat option) \<Rightarrow> string \<Rightarrow> nat \<Rightarrow> token list \<Rightarrow> error + token list"
where
  "read_sequence_loop names seqstr pos tokens =
     (if pos < length seqstr then
        (case SEQ_REGEXP_match seqstr pos of
           None \<Rightarrow> Inl (SyntaxError (''Not a sequence token: '' @ repr (drop pos seqstr)))
         | Some m \<Rightarrow>
             (case match_token names m of
                Inl e \<Rightarrow> Inl e
              | Inr tok \<Rightarrow> read_sequence_loop names seqstr (m_end m) (tokens @ [tok])))
      else Inr tokens)"
  by pat_completeness auto
termination
  by (relation "measure (\<lambda>(names, seqstr, pos, tokens). length seqstr - pos)")
     (auto dest: SEQ_REGEXP_match_end)

declare read_sequence_loop.simps [simp del]

definition read_sequence :: "(string \<Rightarrow> nat option) \<Rightarrow> string \<Rightarrow> error + token list" where
  "read_sequence names seqstr = read_sequence_loop names seqstr 0 []"

text \<open>
  The states of the loop of \<^verbatim>\<open>read_sequence\<close>: the position and the tokens read when the
  condition of the \<^verbatim>\<open>while\<close> is tested.
\<close>

inductive loop_state :: "(string \<Rightarrow> nat option) \<Rightarrow> string \<Rightarrow> nat \<Rightarrow> token list \<Rightarrow> bool"
  for names seqstr
where
  start: "loop_state names seqstr 0 []"
| step: "loop_state names seqstr pos tokens \<Longrightarrow> pos < length seqstr \<Longrightarrow>
         SEQ_REGEXP_match seqstr pos = Some m \<Longrightarrow> match_token names m = Inr tok \<Longrightarrow>
         loop_state names seqstr (m_end m) (tokens @ [tok])"

subsection \<open>Rules and linearizations\<close>

definition not_an_identifier :: "string \<Rightarrow> error" where
  "not_an_identifier s = SyntaxError (''Not an identifier: '' @ repr s)"

definition missing_arrow :: error where
  "missing_arrow = SyntaxError (''Missing '' @ repr RULEARROW @ '' after left-hand side in rule'')"

definition read_rule :: "string \<Rightarrow> error + (string \<times> string list)" where
  "read_rule rulestr =
     (case whitespace_split rulestr (- 1) of
        lhs # arrow # rhs \<Rightarrow>
          if arrow \<noteq> RULEARROW then Inl missing_arrow
          else
            (case List.find (\<lambda>nt. \<not> is_identifier nt) (lhs # rhs) of
               Some nt \<Rightarrow> Inl (not_an_identifier nt)
             | None \<Rightarrow> Inr (lhs, rhs))
      | _ \<Rightarrow> Inl missing_arrow)"

definition read_linearization :: "string \<Rightarrow> error + string list" where
  "read_linearization linstr =
     (let sequences = whitespace_split linstr (- 1) in
      case List.find (\<lambda>seq. \<not> is_identifier seq) sequences of
        Some seq \<Rightarrow> Inl (not_an_identifier seq)
      | None \<Rightarrow> Inr sequences)"

text \<open>
  \<^verbatim>\<open>str_token\<close>. The \<^verbatim>\<open>repr\<close> of a terminal is computed where all its characters are below
  code point 256.
\<close>

fun str_token :: "token \<Rightarrow> error + string" where
  "str_token (ArgRef a r) = Inr (str_int a @ '':'' @ str_int r)"
| "str_token (Terminal s) =
     (if list_all (\<lambda>n. n < 256) s then Inr (repr (map char_of s))
      else Inl (Unmodelled ''the repr of a character above code point 255''))"

text \<open>\<^verbatim>\<open>map(str_token, seq)\<close>, as \<^verbatim>\<open>join\<close> consumes it.\<close>

fun str_tokens :: "token list \<Rightarrow> error + string list" where
  "str_tokens [] = Inr []"
| "str_tokens (t # ts) =
     (case str_token t of
        Inl e \<Rightarrow> Inl e
      | Inr x \<Rightarrow> (case str_tokens ts of Inl e \<Rightarrow> Inl e | Inr xs \<Rightarrow> Inr (x # xs)))"

text \<open>
  A \<^verbatim>\<open>dict\<close> is the list of its items in insertion order, with distinct keys:
  \<^verbatim>\<open>d[k] = v\<close> is \<^const>\<open>AList.update\<close>, which keeps the place of a key the dictionary has and
  puts a new key last.
\<close>

type_synonym ('k, 'v) dict = "('k \<times> 'v) list"

definition dict_in :: "'k \<Rightarrow> ('k, 'v) dict \<Rightarrow> bool" where
  "dict_in k d = (map_of d k \<noteq> None)"

text \<open>\<^verbatim>\<open>d.get(k)\<close> where the values of \<^verbatim>\<open>d\<close> may be \<^verbatim>\<open>None\<close>: a value that is not \<^verbatim>\<open>None\<close>, if
  \<^verbatim>\<open>d\<close> has one for \<^verbatim>\<open>k\<close>.\<close>

definition dict_get :: "('k, 'v option) dict \<Rightarrow> 'k \<Rightarrow> 'v option" where
  "dict_get d k = (case map_of d k of None \<Rightarrow> None | Some v \<Rightarrow> v)"

text \<open>The dictionary after \<^verbatim>\<open>d.setdefault(k, v)\<close>.\<close>

definition setdefault :: "'k \<Rightarrow> 'v \<Rightarrow> ('k, 'v) dict \<Rightarrow> ('k, 'v) dict" where
  "setdefault k v d = (if dict_in k d then d else d @ [(k, v)])"

text \<open>The dictionary after \<^verbatim>\<open>d.setdefault(k, []).append(x)\<close>.\<close>

definition setdefault_append :: "'k \<Rightarrow> 'v \<Rightarrow> ('k, 'v list) dict \<Rightarrow> ('k, 'v list) dict" where
  "setdefault_append k x d =
     (case map_of d k of
        None \<Rightarrow> d @ [(k, [x])]
      | Some xs \<Rightarrow> AList.update k (xs @ [x]) d)"

text \<open>
  \<^verbatim>\<open>collect_max_arities\<close>: the pairs among \<^verbatim>\<open>argrefs\<close> are the \<open>ArgRef\<close> tokens.
\<close>

fun collect_max_arities :: "(int, int) dict \<Rightarrow> token list \<Rightarrow> (int, int) dict" where
  "collect_max_arities arities [] = arities"
| "collect_max_arities arities (Terminal s # ts) = collect_max_arities arities ts"
| "collect_max_arities arities (ArgRef a r # ts) =
     collect_max_arities
       (AList.update a (max (case map_of arities a of None \<Rightarrow> - 1 | Some m \<Rightarrow> m) r) arities) ts"

subsection \<open>Reading a grammar\<close>

text \<open>
  The dictionary \<^verbatim>\<open>read_grammar\<close> returns has six entries; in \<^verbatim>\<open>sequences\<close> and
  \<^verbatim>\<open>nonterms\<close> a value may be \<^verbatim>\<open>None\<close>.
\<close>

text \<open>(The entry \<^verbatim>\<open>functions\<close> is written \<open>functions'\<close>: the plain word is reserved.)\<close>

record grammar =
  pragmas :: "(string option, string list) dict"
  functions' :: "(string, (string \<times> string list) list) dict"
  linearizations :: "(string, string list) dict"
  sequences :: "(string, token list option) dict"
  scores :: "(string, score) dict"
  nonterms :: "(string, nat option) dict"

text \<open>
  The local variables of \<^verbatim>\<open>read_grammar\<close>: the six dictionaries, the two dictionaries of
  arities, and \<^verbatim>\<open>ident\<close>, which the deferred sweep reads after the loop (\<open>None\<close> while it
  is unbound).
\<close>

record state = grammar +
  fun_arities :: "(string, nat) dict"
  seq_arities :: "(string, (int, int) dict) dict"
  ident :: "string option"

definition initial_state :: state where
  "initial_state =
     \<lparr>pragmas = [], functions' = [], linearizations = [], sequences = [], scores = [],
      nonterms = [], fun_arities = [], seq_arities = [], ident = None\<rparr>"

definition arity_mismatch :: "string \<Rightarrow> string \<Rightarrow> string \<Rightarrow> string \<Rightarrow> string" where
  "arity_mismatch lhs lhs_arity fid fun_arity =
     ''Nonterminal '' @ repr lhs @ ''/'' @ lhs_arity @ '' does not match function '' @
     repr fid @ ''/'' @ fun_arity"

definition nonterminal_clash :: "string \<Rightarrow> error" where
  "nonterminal_clash nt =
     ValueError (''Nonterminal '' @ repr nt @
                 '' already occurs as a function or a sequence identifier'')"

definition function_clash :: "string \<Rightarrow> error" where
  "function_clash fid =
     ValueError (''Function '' @ repr fid @
                 '' already occurs as a nonterminal or a sequence identifier'')"

definition sequence_clash :: "string \<Rightarrow> error" where
  "sequence_clash sid =
     ValueError (''Sequence '' @ repr sid @ '' already occurs as a nonterminal or a function'')"

text \<open>
  What \<^verbatim>\<open>raise ValueError("Duplicate ... for %r" (ident,))\<close> does: the argument calls a
  string, so a TypeError is raised and no ValueError is built.
\<close>

definition str_not_callable :: error where
  "str_not_callable = TypeError (QUOTE # ''str'' @ QUOTE # '' object is not callable'')"

text \<open>
  Lines 157 to 160 and 178 to 181: the arity of \<^verbatim>\<open>lhs\<close> becomes the function's, or must be
  equal to it.
\<close>

definition match_arity :: "string \<Rightarrow> nat \<Rightarrow> string \<Rightarrow> state \<Rightarrow> error + state" where
  "match_arity fid fun_arity lhs st =
     (case dict_get (nonterms st) lhs of
        None \<Rightarrow> Inr (st\<lparr>nonterms := AList.update lhs (Some fun_arity) (nonterms st)\<rparr>)
      | Some lhs_arity \<Rightarrow>
          if lhs_arity \<noteq> fun_arity
          then Inl (ValueError (arity_mismatch lhs (str_nat lhs_arity) fid (str_nat fun_arity)))
          else Inr st)"

text \<open>The loop over \<^verbatim>\<open>rhs\<close> of a rule (lines 161 to 164).\<close>

fun register_rhs :: "string list \<Rightarrow> state \<Rightarrow> error + state" where
  "register_rhs [] st = Inr st"
| "register_rhs (r # rhs) st =
     (let st' = st\<lparr>nonterms := setdefault r None (nonterms st)\<rparr> in
      if dict_in r (linearizations st') \<or> dict_in r (functions' st') \<or> dict_in r (sequences st')
      then Inl (nonterminal_clash r)
      else register_rhs rhs st')"

definition rule_decl :: "string \<Rightarrow> string \<Rightarrow> state \<Rightarrow> error + state" where
  "rule_decl fid rest st =
     (case read_rule rest of
        Inl e \<Rightarrow> Inl e
      | Inr (lhs, rhs) \<Rightarrow>
          (let st1 = st\<lparr>functions' := setdefault_append fid (lhs, rhs) (functions' st)\<rparr> in
           case (case map_of (fun_arities st1) fid of
                   None \<Rightarrow> Inr st1
                 | Some fun_arity \<Rightarrow> match_arity fid fun_arity lhs st1) of
             Inl e \<Rightarrow> Inl e
           | Inr st2 \<Rightarrow>
               (case register_rhs rhs st2 of
                  Inl e \<Rightarrow> Inl e
                | Inr st3 \<Rightarrow>
                    if dict_in lhs (linearizations st3) \<or> dict_in lhs (functions' st3) \<or>
                       dict_in lhs (sequences st3)
                    then Inl (nonterminal_clash lhs)
                    else if dict_in fid (nonterms st3) \<or> dict_in fid (sequences st3)
                    then Inl (function_clash fid)
                    else Inr st3)))"

text \<open>The loop over the rules of the function of a linearization (lines 176 to 181).\<close>

fun match_rules :: "string \<Rightarrow> nat \<Rightarrow> (string \<times> string list) list \<Rightarrow> state \<Rightarrow> error + state" where
  "match_rules fid fun_arity [] st = Inr st"
| "match_rules fid fun_arity ((lhs, rhs) # rules) st =
     (case match_arity fid fun_arity lhs st of
        Inl e \<Rightarrow> Inl e
      | Inr st' \<Rightarrow> match_rules fid fun_arity rules st')"

definition linearization_decl :: "string \<Rightarrow> string \<Rightarrow> state \<Rightarrow> error + state" where
  "linearization_decl fid rest st =
     (case read_linearization rest of
        Inl e \<Rightarrow> Inl e
      | Inr lin \<Rightarrow>
          if map_of (linearizations st) fid \<noteq> None then Inl str_not_callable
          else
            (let st1 = st\<lparr>linearizations := AList.update fid lin (linearizations st),
                          fun_arities := AList.update fid (length lin) (fun_arities st)\<rparr> in
             case match_rules fid (length lin)
                    (case map_of (functions' st1) fid of None \<Rightarrow> [] | Some rules \<Rightarrow> rules) st1 of
               Inl e \<Rightarrow> Inl e
             | Inr st2 \<Rightarrow>
                 (let st3 = st2\<lparr>sequences := fold (\<lambda>seq. setdefault seq None) lin (sequences st2)\<rparr>
                  in if dict_in fid (nonterms st3) \<or> dict_in fid (sequences st3)
                     then Inl (function_clash fid)
                     else Inr st3)))"

definition sequence_decl ::
  "(string \<Rightarrow> nat option) \<Rightarrow> string \<Rightarrow> string \<Rightarrow> state \<Rightarrow> error + state"
where
  "sequence_decl names sid rest st =
     (case read_sequence names rest of
        Inl e \<Rightarrow> Inl e
      | Inr tokens \<Rightarrow>
          if dict_get (sequences st) sid \<noteq> None
          then Inl (ValueError (''Duplicate sequence for '' @ repr sid))
          else
            (let st1 = st\<lparr>sequences := AList.update sid (Some tokens) (sequences st),
                          seq_arities :=
                            AList.update sid (collect_max_arities [] tokens) (seq_arities st)\<rparr>
             in if dict_in sid (nonterms st1) \<or> dict_in sid (linearizations st1) \<or>
                   dict_in sid (functions' st1)
                then Inl (sequence_clash sid)
                else Inr st1))"

text \<open>A score: \<^verbatim>\<open>int(keyword)\<close> first, \<^verbatim>\<open>float(keyword)\<close> if that raises ValueError.\<close>

definition read_score :: "string \<Rightarrow> error + score" where
  "read_score keyword =
     (case py_int keyword of
        Some i \<Rightarrow> Inr (IntScore i)
      | None \<Rightarrow>
          (case py_float keyword of
             Some x \<Rightarrow> Inr x
           | None \<Rightarrow> Inl (SyntaxError (''Not a correct score: '' @ repr keyword))))"

definition score_decl :: "string \<Rightarrow> string \<Rightarrow> string \<Rightarrow> state \<Rightarrow> error + state" where
  "score_decl fid keyword rest st =
     (case read_score keyword of
        Inl e \<Rightarrow> Inl e
      | Inr score \<Rightarrow>
          if rest \<noteq> []
          then Inl (SyntaxError (''Extra information in score declaration: '' @ repr rest))
          else if dict_in fid (scores st) then Inl str_not_callable
          else Inr (st\<lparr>scores := AList.update fid score (scores st)\<rparr>))"

text \<open>What unpacking a list into the wrong number of names raises.\<close>

definition unpack_error :: error where
  "unpack_error = ValueError ''not enough values to unpack''"

text \<open>A pragma line; \<^verbatim>\<open>rest\<close> starts with the marker (lines 139 to 144).\<close>

definition pragma_decl :: "string \<Rightarrow> state \<Rightarrow> error + state" where
  "pragma_decl rest st =
     (if isspace (take 1 (drop 1 rest))
      then Inr (st\<lparr>pragmas := setdefault_append None (strip (drop 1 rest)) (pragmas st)\<rparr>)
      else
        (case whitespace_split (drop 1 rest) 1 of
           [pragma, info] \<Rightarrow>
             Inr (st\<lparr>pragmas := setdefault_append (Some pragma) (strip info) (pragmas st)\<rparr>)
         | _ \<Rightarrow> Inl unpack_error))"

text \<open>
  The three fields of a declaration line (line 147): a line that is not blank, no comment
  and no pragma line.
\<close>

definition declaration_fields :: "string \<Rightarrow> (string \<times> string \<times> string) option" where
  "declaration_fields line =
     (let rest = lstrip line in
      if rest = [] \<or> hd rest \<in> set COMMENT \<or> [hd rest] = PRAGMA then None
      else (case whitespace_split rest 2 of
              [fid, keyword, rest'] \<Rightarrow> Some (fid, keyword, rest')
            | _ \<Rightarrow> None))"

text \<open>The body of the \<^verbatim>\<open>try\<close> statement, for one line.\<close>

definition process_line :: "(string \<Rightarrow> nat option) \<Rightarrow> string \<Rightarrow> state \<Rightarrow> error + state" where
  "process_line names line st =
     (let rest = lstrip line in
      if rest = [] \<or> hd rest \<in> set COMMENT then Inr st
      else if [hd rest] = PRAGMA then pragma_decl rest st
      else
        (case whitespace_split rest 2 of
           [fid, keyword, rest'] \<Rightarrow>
             (let st' = st\<lparr>ident := Some fid\<rparr> in
              if \<not> is_identifier fid then Inl (not_an_identifier fid)
              else if keyword = RULE then rule_decl fid rest' st'
              else if keyword = LINEARIZATION then linearization_decl fid rest' st'
              else if keyword = SEQUENCE then sequence_decl names fid rest' st'
              else score_decl fid keyword rest' st')
         | _ \<Rightarrow> Inl unpack_error))"

text \<open>
  The \<^verbatim>\<open>fileinput\<close> module, as the handler sees it while a line is processed: no input is
  active, and \<^verbatim>\<open>fileinput.filename()\<close> raises RuntimeError; or \<^verbatim>\<open>filename()\<close> and
  \<^verbatim>\<open>lineno()\<close> return a file name (or \<^verbatim>\<open>None\<close>) and a line number.
\<close>

datatype fileinput = No_active_input | Position "string option" int

text \<open>The handler (lines 211 to 218): what it raises for an exception of the \<^verbatim>\<open>try\<close> body.
  It catches SyntaxError and ValueError only.\<close>

definition happened :: "fileinput \<Rightarrow> string \<Rightarrow> error + string" where
  "happened fi line =
     (case fi of
        No_active_input \<Rightarrow> Inl (RuntimeError ''no active input'')
      | Position None lineno \<Rightarrow> Inr (''[happened on input line: '' @ repr line @ '']'')
      | Position (Some filename) lineno \<Rightarrow>
          Inr (''[happened in input file '' @ repr filename @ '', line '' @ str_int lineno @
               '': '' @ repr line @ '']''))"

definition handler :: "fileinput \<Rightarrow> string \<Rightarrow> error \<Rightarrow> error" where
  "handler fi line err =
     (case err of
        SyntaxError msg \<Rightarrow>
          (case happened fi line of Inl e \<Rightarrow> e | Inr arg \<Rightarrow> SyntaxError (msg @ '' '' @ arg))
      | ValueError msg \<Rightarrow>
          (case happened fi line of Inl e \<Rightarrow> e | Inr arg \<Rightarrow> ValueError (msg @ '' '' @ arg))
      | _ \<Rightarrow> err)"

text \<open>The loop over the lines; \<open>fi n\<close> is the state of \<^verbatim>\<open>fileinput\<close> at line \<open>n\<close>, counted
  from 0.\<close>

fun read_lines ::
  "(string \<Rightarrow> nat option) \<Rightarrow> (nat \<Rightarrow> fileinput) \<Rightarrow> nat \<Rightarrow> string list \<Rightarrow> state \<Rightarrow> error + state"
where
  "read_lines names fi n [] st = Inr st"
| "read_lines names fi n (line # lines) st =
     (case process_line names line st of
        Inl err \<Rightarrow> Inl (handler (fi n) line err)
      | Inr st' \<Rightarrow> read_lines names fi (Suc n) lines st')"

subsection \<open>The deferred sweep\<close>

text \<open>
  \<^verbatim>\<open>warnings.warn\<close> adds a message to the warnings given so far; every warning of the program
  is a SyntaxWarning. The two first messages join the members of a \<^verbatim>\<open>set\<close>, in an order
  Python does not fix: the model lists them in the order of the dictionary.
\<close>

text \<open>\<^verbatim>\<open>xs[i]\<close> on a list; a negative index counts from the end.\<close>

definition py_index :: "'a list \<Rightarrow> int \<Rightarrow> error + 'a" where
  "py_index xs i =
     (if 0 \<le> i \<and> i < int (length xs) then Inr (xs ! nat i)
      else if i < 0 \<and> - i \<le> int (length xs) then Inr (xs ! nat (int (length xs) + i))
      else Inl (IndexError ''list index out of range''))"

text \<open>\<^verbatim>\<open>"%s" % (a,)\<close> of an arity that may be \<^verbatim>\<open>None\<close>.\<close>

definition str_arity :: "nat option \<Rightarrow> string" where
  "str_arity a = (case a of None \<Rightarrow> ''None'' | Some n \<Rightarrow> str_nat n)"

text \<open>The loop over \<^verbatim>\<open>arities.items()\<close> (lines 243 to 250).\<close>

fun sweep_args ::
  "state \<Rightarrow> string \<Rightarrow> string list \<Rightarrow> (int, int) dict \<Rightarrow> string list \<Rightarrow> string list \<times> error option"
where
  "sweep_args st fid rhs [] ws = (ws, None)"
| "sweep_args st fid rhs ((arg, maxref) # items) ws =
     (let ws1 =
            (if arg \<ge> int (length rhs)
             then ws @ [''Linearization for '' @ repr fid @ '' refers to argument #'' @
                        str_int arg @ '', but must be <'' @ str_nat (length rhs)]
             else ws)
      in case py_index rhs arg of
           Inl e \<Rightarrow> (ws1, Some e)
         | Inr nt \<Rightarrow>
             sweep_args st fid rhs items
               (case dict_get (nonterms st) nt of
                  None \<Rightarrow> ws1 @ [''Missing definition for nonterminal '' @ repr nt]
                | Some rhs_arity \<Rightarrow>
                    if int rhs_arity \<le> maxref
                    then ws1 @ [''Reference #'' @ str_int arg @ ''.'' @ str_int maxref @
                                '' in linearization for '' @ repr fid @
                                '' does not match arity '' @ repr nt @ ''/'' @ str_nat rhs_arity]
                    else ws1))"

text \<open>The loop over the rules of a function (lines 239 to 250).\<close>

fun sweep_rules ::
  "state \<Rightarrow> string \<Rightarrow> nat \<Rightarrow> (int, int) dict \<Rightarrow> (string \<times> string list) list \<Rightarrow> string list \<Rightarrow>
   string list \<times> error option"
where
  "sweep_rules st fid fun_arity arities [] ws = (ws, None)"
| "sweep_rules st fid fun_arity arities ((lhs, rhs) # rules) ws =
     (case map_of (nonterms st) lhs of
        None \<Rightarrow> (ws, Some (KeyError lhs))
      | Some lhs_arity \<Rightarrow>
          (case (if Some fun_arity \<noteq> lhs_arity then
                   (case ident st of
                      None \<Rightarrow> Inl (NameError ''name 'ident' is not defined'')
                    | Some i \<Rightarrow>
                        Inr (ws @ [arity_mismatch lhs (str_arity lhs_arity) i (str_nat fun_arity)]))
                 else Inr ws) of
             Inl e \<Rightarrow> (ws, Some e)
           | Inr ws1 \<Rightarrow>
               (case sweep_args st fid rhs arities ws1 of
                  (ws2, Some e) \<Rightarrow> (ws2, Some e)
                | (ws2, None) \<Rightarrow> sweep_rules st fid fun_arity arities rules ws2)))"

text \<open>The loop over the sequences of a linearization (lines 236 and 237): the items of a
  dictionary of arities are pairs.\<close>

fun merge_arities :: "state \<Rightarrow> string list \<Rightarrow> (int, int) dict \<Rightarrow> error + (int, int) dict" where
  "merge_arities st [] arities = Inr arities"
| "merge_arities st (seq # lin) arities =
     (case map_of (seq_arities st) seq of
        None \<Rightarrow> Inl (KeyError seq)
      | Some items \<Rightarrow>
          merge_arities st lin (collect_max_arities arities (map (\<lambda>(a, r). ArgRef a r) items)))"

text \<open>The loop over \<^verbatim>\<open>functions.items()\<close> (lines 230 to 250).\<close>

fun sweep_functions ::
  "state \<Rightarrow> (string, (string \<times> string list) list) dict \<Rightarrow> string list \<Rightarrow> string list \<times> error option"
where
  "sweep_functions st [] ws = (ws, None)"
| "sweep_functions st ((fid, rules) # fs) ws =
     (case map_of (linearizations st) fid of
        None \<Rightarrow>
          sweep_functions st fs (ws @ [''Missing linearization for function '' @ repr fid])
      | Some lin \<Rightarrow>
          (case merge_arities st lin [] of
             Inl e \<Rightarrow> (ws, Some e)
           | Inr arities \<Rightarrow>
               (case map_of (fun_arities st) fid of
                  None \<Rightarrow> (ws, Some (KeyError fid))
                | Some fun_arity \<Rightarrow>
                    (case sweep_rules st fid fun_arity arities rules ws of
                       (ws', Some e) \<Rightarrow> (ws', Some e)
                     | (ws', None) \<Rightarrow> sweep_functions st fs ws'))))"

text \<open>The sweep (lines 222 to 250): the warnings it gives, and the exception it raises, if
  any.\<close>

definition validate_sweep :: "state \<Rightarrow> string list \<times> error option" where
  "validate_sweep st =
     (let undefined_nonterms = map fst (filter (\<lambda>(nt, arity). arity = None) (nonterms st));
          undefined_sequences = map fst (filter (\<lambda>(seq, tokens). tokens = None) (sequences st));
          ws1 = (if undefined_nonterms \<noteq> []
                 then [''Undefined nonterminals: '' @ join '' '' undefined_nonterms] else []);
          ws2 = (if undefined_sequences \<noteq> []
                 then ws1 @ [''Undefined sequences: '' @ join '' '' undefined_sequences] else ws1)
      in sweep_functions st (functions' st) ws2)"

text \<open>
  \<^verbatim>\<open>read_grammar(lines, validate)\<close>: the warnings given by the calls of \<^verbatim>\<open>warnings.warn\<close> in
  the program, and the exception raised or the dictionary returned. \<open>names\<close> is the Unicode
  database that \<^verbatim>\<open>eval\<close> consults.
\<close>

definition read_grammar ::
  "(string \<Rightarrow> nat option) \<Rightarrow> (nat \<Rightarrow> fileinput) \<Rightarrow> string list \<Rightarrow> bool \<Rightarrow>
   string list \<times> (error + grammar)"
where
  "read_grammar names fi lines validate =
     (case read_lines names fi 0 lines initial_state of
        Inl e \<Rightarrow> ([], Inl e)
      | Inr st \<Rightarrow>
          (case (if validate then validate_sweep st else ([], None)) of
             (ws, Some e) \<Rightarrow> (ws, Inl e)
           | (ws, None) \<Rightarrow>
               (ws, Inr \<lparr>pragmas = pragmas st, functions' = functions' st,
                         linearizations = linearizations st, sequences = sequences st,
                         scores = scores st, nonterms = nonterms st\<rparr>)))"

subsection \<open>Writing a grammar\<close>

text \<open>
  \<^verbatim>\<open>write_grammar\<close> prints to the standard output. The model gives the text of each call of
  \<^verbatim>\<open>print\<close> in order, its line feed included, and the exception raised, if any. The grammar
  is one that \<^verbatim>\<open>read_grammar\<close> returned, as in \<^verbatim>\<open>write_grammar(**grammar)\<close>.
\<close>

definition print :: "string \<Rightarrow> string" where
  "print s = s @ [NEWLINE]"

definition print_pragmas :: "(string option, string list) dict \<Rightarrow> string list" where
  "print_pragmas ps =
     concat (map (\<lambda>(pid, prgms).
       map (\<lambda>prg. print (PRAGMA @ (case pid of None \<Rightarrow> [] | Some p \<Rightarrow> p) @ '' '' @ prg)) prgms) ps)"

definition print_functions :: "(string, (string \<times> string list) list) dict \<Rightarrow> string list" where
  "print_functions fs =
     concat (map (\<lambda>(fid, rules).
       map (\<lambda>(lhs, rhs).
         print (fid @ '' '' @ RULE @ '' '' @ lhs @ '' '' @ RULEARROW @ '' '' @ join '' '' rhs)) rules) fs)"

definition print_linearizations :: "(string, string list) dict \<Rightarrow> string list" where
  "print_linearizations ls =
     map (\<lambda>(fid, lin). print (fid @ '' '' @ LINEARIZATION @ '' '' @ join '' '' lin)) ls"

text \<open>A sequence whose value is \<^verbatim>\<open>None\<close> cannot be iterated.\<close>

fun print_sequences :: "(string, token list option) dict \<Rightarrow> string list \<times> error option" where
  "print_sequences [] = ([], None)"
| "print_sequences ((sid, None) # ss) =
     ([], Some (TypeError (QUOTE # ''NoneType'' @ QUOTE # '' object is not iterable'')))"
| "print_sequences ((sid, Some seq) # ss) =
     (case str_tokens seq of
        Inl e \<Rightarrow> ([], Some e)
      | Inr strs \<Rightarrow>
          (case print_sequences ss of
             (out, e) \<Rightarrow> (print (sid @ '' '' @ SEQUENCE @ '' '' @ join '' '' strs) # out, e)))"

fun print_scores :: "(string, score) dict \<Rightarrow> string list \<times> error option" where
  "print_scores [] = ([], None)"
| "print_scores ((fid, FloatScore x) # ss) =
     ([], Some (Unmodelled ''the text of a floating-point number''))"
| "print_scores ((fid, IntScore i) # ss) =
     (case print_scores ss of (out, e) \<Rightarrow> (print (fid @ '' '' @ str_int i) # out, e))"

definition write_grammar :: "grammar \<Rightarrow> string list \<times> error option" where
  "write_grammar g =
     (let out1 =
            [print []] @
            (if pragmas g \<noteq> []
             then [print ([hd COMMENT] @ '' Pragmas'')] @ print_pragmas (pragmas g) @ [print []]
             else []) @
            [print ([hd COMMENT] @ '' Functions/rules'')] @ print_functions (functions' g) @
            [print []] @
            [print ([hd COMMENT] @ '' Linearizations'')] @ print_linearizations (linearizations g) @
            [print []] @
            [print ([hd COMMENT] @ '' Sequences'')]
      in case print_sequences (sequences g) of
           (seqs, Some e) \<Rightarrow> (out1 @ seqs, Some e)
         | (seqs, None) \<Rightarrow>
             (let out2 = out1 @ seqs @ [print []] @ [print ([hd COMMENT] @ '' Sequences'')] in
              case print_sequences (sequences g) of
                (seqs', Some e) \<Rightarrow> (out2 @ seqs', Some e)
              | (seqs', None) \<Rightarrow>
                  (let out3 = out2 @ seqs' @ [print []] in
                   if scores g \<noteq> [] then
                     (case print_scores (scores g) of
                        (scs, Some e) \<Rightarrow> (out3 @ [print ([hd COMMENT] @ '' Scores'')] @ scs, Some e)
                      | (scs, None) \<Rightarrow>
                          (out3 @ [print ([hd COMMENT] @ '' Scores'')] @ scs @ [print []], None))
                   else (out3, None))))"

text \<open>
  The lines of a text, as \<^verbatim>\<open>fileinput\<close> gives them: each with the line feed that ends it.
\<close>

fun text_lines :: "string \<Rightarrow> string list" where
  "text_lines [] = []"
| "text_lines (c # cs) =
     (if c = NEWLINE then [c] # text_lines cs
      else (case text_lines cs of [] \<Rightarrow> [[c]] | l # ls \<Rightarrow> (c # l) # ls))"

text \<open>
  \<^verbatim>\<open>fileinput.input()\<close> reading the standard input, as under \<^verbatim>\<open>__main__\<close>: the file name is
  \<^verbatim>\<open><stdin>\<close> and the lines are numbered from 1.
\<close>

definition stdin :: "nat \<Rightarrow> fileinput" where
  "stdin n = Position (Some ''<stdin>'') (int n + 1)"

subsection \<open>What the loop over the lines keeps\<close>

text \<open>The identifier of a line that declares a sequence body, if the line is one.\<close>

definition sequence_ident :: "string \<Rightarrow> string option" where
  "sequence_ident line =
     (case declaration_fields line of
        None \<Rightarrow> None
      | Some (fid, keyword, rest) \<Rightarrow> if keyword = SEQUENCE then Some fid else None)"

text \<open>
  Five facts that hold of the local dictionaries after every line that raises no error.
  Every sequence of a linearization is a key of \<^verbatim>\<open>sequences\<close>; a sequence has a body only if a
  line of the set \<open>D\<close> declared it; every nonterminal of a right-hand side is a key of
  \<^verbatim>\<open>nonterms\<close>; a nonterminal has an arity only if it is the left-hand side of a rule of a
  function whose linearization has that length; and \<^verbatim>\<open>fun_arities\<close> holds the lengths of
  the linearizations.
\<close>

definition seqs_registered :: "state \<Rightarrow> bool" where
  "seqs_registered st \<longleftrightarrow>
     (\<forall>f lin s. map_of (linearizations st) f = Some lin \<longrightarrow> s \<in> set lin \<longrightarrow>
        map_of (sequences st) s \<noteq> None)"

definition bodies_declared :: "string set \<Rightarrow> state \<Rightarrow> bool" where
  "bodies_declared D st \<longleftrightarrow>
     (\<forall>s toks. map_of (sequences st) s = Some (Some toks) \<longrightarrow> s \<in> D)"

definition rhs_registered :: "state \<Rightarrow> bool" where
  "rhs_registered st \<longleftrightarrow>
     (\<forall>f rules lhs rhs r. map_of (functions' st) f = Some rules \<longrightarrow> (lhs, rhs) \<in> set rules \<longrightarrow>
        r \<in> set rhs \<longrightarrow> map_of (nonterms st) r \<noteq> None)"

definition arities_inferred :: "state \<Rightarrow> bool" where
  "arities_inferred st \<longleftrightarrow>
     (\<forall>nt n. map_of (nonterms st) nt = Some (Some n) \<longrightarrow>
        (\<exists>f lin rules rhs. map_of (linearizations st) f = Some lin \<and> length lin = n \<and>
           map_of (functions' st) f = Some rules \<and> (nt, rhs) \<in> set rules))"

definition fun_arities_ok :: "state \<Rightarrow> bool" where
  "fun_arities_ok st \<longleftrightarrow>
     (\<forall>f a. map_of (fun_arities st) f = Some a \<longrightarrow>
        (\<exists>lin. map_of (linearizations st) f = Some lin \<and> length lin = a))"

definition invariant :: "string set \<Rightarrow> state \<Rightarrow> bool" where
  "invariant D st \<longleftrightarrow>
     seqs_registered st \<and> bodies_declared D st \<and> rhs_registered st \<and> arities_inferred st \<and>
     fun_arities_ok st"

text \<open>The dictionaries a step leaves as they are, when it changes \<^verbatim>\<open>nonterms\<close> only.\<close>

definition frame :: "state \<Rightarrow> state \<Rightarrow> bool" where
  "frame st st' \<longleftrightarrow>
     functions' st' = functions' st \<and> linearizations st' = linearizations st \<and>
     sequences st' = sequences st \<and> fun_arities st' = fun_arities st"

section \<open>Properties of the tokenizer\<close>

subsection \<open>\<^verbatim>\<open>repr\<close> is one-to-one\<close>

lemma ord_char_of: "n < 256 \<Longrightarrow> ord (char_of n) = n"
  by (simp add: ord_def)

lemma ord_less: "ord c < 256"
  by (simp add: ord_def)

lemma ord_inj: "ord c = ord d \<Longrightarrow> c = d"
  by (simp add: ord_def)

lemma ord_hex_char: "n < 16 \<Longrightarrow> ord (hex_char n) = (if n < 10 then 48 + n else 87 + n)"
  by (simp add: hex_char_def ord_char_of)

lemma hex_char_inj: "a < 16 \<Longrightarrow> b < 16 \<Longrightarrow> hex_char a = hex_char b \<Longrightarrow> a = b"
proof -
  assume a: "a < 16" and b: "b < 16" and h: "hex_char a = hex_char b"
  from h have "ord (hex_char a) = ord (hex_char b)" by simp
  with a b show "a = b" by (simp add: ord_hex_char split: if_splits)
qed

lemma hex_escape_inj: "hex_escape c = hex_escape d \<Longrightarrow> c = d"
proof -
  assume h: "hex_escape c = hex_escape d"
  have lt: "ord c div 16 < 16" "ord d div 16 < 16" "ord c mod 16 < 16" "ord d mod 16 < 16"
    using ord_less [of c] ord_less [of d] by simp_all
  from h have "hex_char (ord c div 16) = hex_char (ord d div 16)"
    and "hex_char (ord c mod 16) = hex_char (ord d mod 16)"
    by (simp_all add: hex_escape_def)
  with lt have "ord c div 16 = ord d div 16" "ord c mod 16 = ord d mod 16"
    by (blast dest: hex_char_inj)+
  then have "ord c = ord d"
    by (metis div_mult_mod_eq)
  then show "c = d" by (rule ord_inj)
qed

text \<open>The forms of an escaped character.\<close>

lemma repr_char_cases:
  "repr_char q c = [c] \<and> c \<noteq> BACKSLASH \<and> c \<noteq> q
   \<or> repr_char q c = [BACKSLASH, c] \<and> c = BACKSLASH
   \<or> repr_char q c = [BACKSLASH, c] \<and> c = q
   \<or> repr_char q c = [BACKSLASH, CHR ''t''] \<and> c = TAB \<and> c \<noteq> q
   \<or> repr_char q c = [BACKSLASH, CHR ''n''] \<and> c = NEWLINE \<and> c \<noteq> q
   \<or> repr_char q c = [BACKSLASH, CHR ''r''] \<and> c = RETURN \<and> c \<noteq> q
   \<or> repr_char q c = hex_escape c \<and> c \<noteq> q"
  by (auto simp: repr_char_def Let_def)


lemma hex_escape_append_inj: "hex_escape c @ a = hex_escape d @ b \<Longrightarrow> c = d"
proof -
  assume "hex_escape c @ a = hex_escape d @ b"
  then have "hex_escape c = hex_escape d"
    by (simp add: hex_escape_def)
  then show "c = d" by (rule hex_escape_inj)
qed


lemma hex_escape_head: "\<exists>r. hex_escape c = BACKSLASH # CHR ''x'' # r"
  by (simp add: hex_escape_def)

lemma repr_char_inj:
  assumes q: "q = QUOTE \<or> q = DQUOTE"
    and eq: "repr_char q c @ a = repr_char q d @ b"
  shows "c = d"
proof -
  obtain rc where rc: "hex_escape c = BACKSLASH # CHR ''x'' # rc"
    using hex_escape_head by blast
  obtain rd where rd: "hex_escape d = BACKSLASH # CHR ''x'' # rd"
    using hex_escape_head by blast
  note D = repr_char_cases [of q d]
  from repr_char_cases [of q c] show ?thesis
  proof (elim disjE conjE)
    assume c: "repr_char q c = [c]" "c \<noteq> BACKSLASH" "c \<noteq> q"
    from D show ?thesis using c eq q rd by (elim disjE conjE) simp_all
  next
    assume c: "repr_char q c = [BACKSLASH, c]" "c = BACKSLASH"
    from D show ?thesis using c eq q rd by (elim disjE conjE) auto
  next
    assume c: "repr_char q c = [BACKSLASH, c]" "c = q"
    from D show ?thesis using c eq q rd by (elim disjE conjE) auto
  next
    assume c: "repr_char q c = [BACKSLASH, CHR ''t'']" "c = TAB" "c \<noteq> q"
    from D show ?thesis using c eq q rd by (elim disjE conjE) auto
  next
    assume c: "repr_char q c = [BACKSLASH, CHR ''n'']" "c = NEWLINE" "c \<noteq> q"
    from D show ?thesis using c eq q rd by (elim disjE conjE) auto
  next
    assume c: "repr_char q c = [BACKSLASH, CHR ''r'']" "c = RETURN" "c \<noteq> q"
    from D show ?thesis using c eq q rd by (elim disjE conjE) auto
  next
    assume c: "repr_char q c = hex_escape c" "c \<noteq> q"
    from D show ?thesis
    proof (elim disjE conjE)
      assume "repr_char q d = hex_escape d"
      with c eq show ?thesis by (simp add: hex_escape_append_inj)
    qed (use c eq q rc in auto)
  qed
qed


lemma repr_char_not_Nil: "repr_char q c \<noteq> []"
  using repr_char_cases [of q c] by (auto simp: hex_escape_def)

lemma repr_body_inj:
  assumes q: "q = QUOTE \<or> q = DQUOTE"
  shows "concat (map (repr_char q) s) = concat (map (repr_char q) t) \<Longrightarrow> s = t"
proof (induction s arbitrary: t)
  case Nil
  then show ?case
    by (cases t) (simp_all add: repr_char_not_Nil)
next
  case (Cons c s)
  show ?case
  proof (cases t)
    case Nil
    with Cons.prems show ?thesis
      by (simp add: repr_char_not_Nil)
  next
    case (Cons d t')
    with Cons.prems have e: "repr_char q c @ concat (map (repr_char q) s)
        = repr_char q d @ concat (map (repr_char q) t')" by simp
    with q have "c = d" by (rule repr_char_inj)
    with e Cons Cons.IH show ?thesis by simp
  qed
qed

lemma repr_inj: "repr s = repr t \<Longrightarrow> s = t"
proof -
  assume h: "repr s = repr t"
  define q where "q = (if QUOTE \<in> set s \<and> DQUOTE \<notin> set s then DQUOTE else QUOTE)"
  define q' where "q' = (if QUOTE \<in> set t \<and> DQUOTE \<notin> set t then DQUOTE else QUOTE)"
  from h have "q # concat (map (repr_char q) s) @ [q] = q' # concat (map (repr_char q') t) @ [q']"
    by (simp only: repr_def Let_def q_def q'_def)
  then have body: "concat (map (repr_char q) s) = concat (map (repr_char q) t)"
    by auto
  have "q = QUOTE \<or> q = DQUOTE" by (simp add: q_def)
  then show "s = t" using body by (rule repr_body_inj)
qed

lemma loop_state_result:
  "loop_state names seqstr pos tokens \<Longrightarrow>
   read_sequence names seqstr = read_sequence_loop names seqstr pos tokens"
proof (induction rule: loop_state.induct)
  case start
  show ?case by (simp add: read_sequence_def)
next
  case (step pos tokens m tok)
  then show ?case
    by (simp add: read_sequence_loop.simps [of names seqstr pos tokens])
qed

text \<open>
  C7: the sequence body \<^verbatim>\<open>"hi there" 0:1 'x'\<close> is tokenized to the terminal \<^verbatim>\<open>hi there\<close>,
  the pair (0, 1) and the terminal \<^verbatim>\<open>x\<close>. Whenever the loop of \<^verbatim>\<open>read_sequence\<close> stands at a
  position where no token matches, the call raises a SyntaxError and returns no token; the
  message is \<^verbatim>\<open>Not a sequence token:\<close> and the \<^verbatim>\<open>repr\<close> of the rest of the string from that
  position, and \<^verbatim>\<open>repr\<close> is one-to-one, so the message gives the rest exactly. This holds
  for every Unicode database \<open>names\<close>.
\<close>

theorem read_sequence_tokens:
  "read_sequence names (DQUOTE # ''hi there'' @ DQUOTE # '' 0:1 '' @ QUOTE # ''x'' @ [QUOTE])
     = Inr [Terminal (ustr ''hi there''), ArgRef 0 1, Terminal (ustr ''x'')]
   \<and> (\<forall>seqstr pos tokens.
        loop_state names seqstr pos tokens \<and> pos < length seqstr \<and>
        SEQ_REGEXP_match seqstr pos = None \<longrightarrow>
        read_sequence names seqstr =
          Inl (SyntaxError (''Not a sequence token: '' @ repr (drop pos seqstr))))
   \<and> (\<forall>s t. repr s = repr t \<longrightarrow> s = t)"
proof (intro conjI allI impI)
  show "read_sequence names (DQUOTE # ''hi there'' @ DQUOTE # '' 0:1 '' @ QUOTE # ''x'' @ [QUOTE])
     = Inr [Terminal (ustr ''hi there''), ArgRef 0 1, Terminal (ustr ''x'')]"
    by code_simp
next
  fix seqstr pos tokens
  assume h: "loop_state names seqstr pos tokens \<and> pos < length seqstr \<and>
        SEQ_REGEXP_match seqstr pos = None"
  then have "read_sequence names seqstr = read_sequence_loop names seqstr pos tokens"
    by (simp add: loop_state_result)
  with h show "read_sequence names seqstr =
          Inl (SyntaxError (''Not a sequence token: '' @ repr (drop pos seqstr)))"
    by (simp add: read_sequence_loop.simps [of names seqstr pos tokens])
next
  fix s t
  assume "repr s = repr t"
  then show "s = t" by (rule repr_inj)
qed

text \<open>
  The body \<^verbatim>\<open>'\u2603' x\<close>: the loop reads the terminal of the one character U+2603, stands at
  position 9 before \<^verbatim>\<open>x\<close>, and the call raises the SyntaxError for the rest \<^verbatim>\<open>x\<close>, by the
  theorem.
\<close>

lemma tokens_witness_match:
  "SEQ_REGEXP_match (QUOTE # BACKSLASH # ''u2603'' @ QUOTE # '' x'') 0 =
     Some \<lparr>group1 = Some (QUOTE # BACKSLASH # ''u2603'' @ [QUOTE]), group2 = None,
           group3 = None, m_end = 9\<rparr>"
  by code_simp

lemma tokens_witness_token:
  "match_token names \<lparr>group1 = Some (QUOTE # BACKSLASH # ''u2603'' @ [QUOTE]), group2 = None,
                      group3 = None, m_end = 9\<rparr> = Inr (Terminal [9731])"
  by code_simp

lemma tokens_witness_no_match:
  "SEQ_REGEXP_match (QUOTE # BACKSLASH # ''u2603'' @ QUOTE # '' x'') 9 = None"
  by code_simp

theorem read_sequence_tokens_witness:
  "\<forall>names.
     loop_state names (QUOTE # BACKSLASH # ''u2603'' @ QUOTE # '' x'') 9 [Terminal [9731]]
     \<and> SEQ_REGEXP_match (QUOTE # BACKSLASH # ''u2603'' @ QUOTE # '' x'') 9 = None
     \<and> read_sequence names (QUOTE # BACKSLASH # ''u2603'' @ QUOTE # '' x'') =
          Inl (SyntaxError (''Not a sequence token: '' @ QUOTE # ''x'' @ [QUOTE]))"
proof
  fix names :: "string \<Rightarrow> nat option"
  let ?s = "QUOTE # BACKSLASH # ''u2603'' @ QUOTE # '' x''"
  have l: "loop_state names ?s 9 [Terminal [9731]]"
    using loop_state.step [OF loop_state.start _ tokens_witness_match tokens_witness_token,
                           of names]
    by simp
  have r: "repr (drop 9 ?s) = QUOTE # ''x'' @ [QUOTE]"
    by code_simp
  have "read_sequence names ?s =
          Inl (SyntaxError (''Not a sequence token: '' @ repr (drop 9 ?s)))"
    using l tokens_witness_no_match
      read_sequence_tokens [THEN conjunct2, THEN conjunct1, THEN spec, THEN spec, THEN spec,
        of names ?s 9 "[Terminal [9731]]"]
    by simp
  with l tokens_witness_no_match r show
    "loop_state names ?s 9 [Terminal [9731]]
     \<and> SEQ_REGEXP_match ?s 9 = None
     \<and> read_sequence names ?s =
          Inl (SyntaxError (''Not a sequence token: '' @ QUOTE # ''x'' @ [QUOTE]))"
    by simp
qed

section \<open>Properties of the reader\<close>

subsection \<open>Dictionaries\<close>

lemma map_of_setdefault:
  "map_of (setdefault k v d) = (\<lambda>x. if x = k \<and> map_of d k = None then Some v else map_of d x)"
  by (auto simp: setdefault_def dict_in_def map_add_def fun_eq_iff split: option.splits)

lemma map_of_setdefault_append:
  "map_of (setdefault_append k x d) =
     (map_of d)(k \<mapsto> (case map_of d k of None \<Rightarrow> [] | Some xs \<Rightarrow> xs) @ [x])"
  by (auto simp: setdefault_append_def update_conv' map_add_def fun_eq_iff split: option.splits)

lemma map_of_fold_setdefault:
  "map_of (fold (\<lambda>s. setdefault s v) xs d) =
     (\<lambda>x. case map_of d x of Some y \<Rightarrow> Some y | None \<Rightarrow> if x \<in> set xs then Some v else None)"
  by (induction xs arbitrary: d) (auto simp: map_of_setdefault fun_eq_iff split: option.splits)

lemma match_arity_Inr:
  assumes "match_arity fid a lhs st = Inr st'"
  shows "frame st st' \<and> map_of (nonterms st') = (map_of (nonterms st))(lhs \<mapsto> Some a)"
  using assms
  by (auto simp: match_arity_def dict_get_def update_conv' fun_eq_iff frame_def
           split: option.splits if_splits)

lemma match_rules_Inr:
  "match_rules fid a rules st = Inr st' \<Longrightarrow>
   frame st st' \<and>
   map_of (nonterms st') =
     (\<lambda>nt. if nt \<in> fst ` set rules then Some (Some a) else map_of (nonterms st) nt)"
proof (induction rules arbitrary: st)
  case Nil
  then show ?case by (simp add: frame_def)
next
  case (Cons rule rules)
  obtain lhs rhs where rule: "rule = (lhs, rhs)" by (cases rule)
  from Cons.prems obtain st1 where
    1: "match_arity fid a lhs st = Inr st1" and 2: "match_rules fid a rules st1 = Inr st'"
    by (auto simp: rule split: sum.splits)
  from Cons.IH [OF 2] match_arity_Inr [OF 1] show ?case
    by (auto simp: rule fun_eq_iff frame_def)
qed

lemma register_rhs_Inr:
  "register_rhs rhs st = Inr st' \<Longrightarrow>
   frame st st' \<and>
   map_of (nonterms st') =
     (\<lambda>nt. case map_of (nonterms st) nt of
             Some v \<Rightarrow> Some v
           | None \<Rightarrow> if nt \<in> set rhs then Some None else None)"
proof (induction rhs arbitrary: st)
  case Nil
  then show ?case by (auto simp: frame_def fun_eq_iff split: option.splits)
next
  case (Cons r rhs)
  let ?st1 = "st\<lparr>nonterms := setdefault r None (nonterms st)\<rparr>"
  from Cons.prems have 2: "register_rhs rhs ?st1 = Inr st'"
    by (auto simp: Let_def split: if_splits)
  from Cons.IH [OF 2] show ?case
    by (auto simp: fun_eq_iff frame_def map_of_setdefault split: option.splits)
qed


lemma rule_decl_Inr:
  assumes "rule_decl fid rest st = Inr st'"
  obtains lhs rhs where
    "linearizations st' = linearizations st" and "sequences st' = sequences st"
    and "fun_arities st' = fun_arities st"
    and "map_of (functions' st') =
           (map_of (functions' st))
             (fid \<mapsto> (case map_of (functions' st) fid of None \<Rightarrow> [] | Some xs \<Rightarrow> xs) @ [(lhs, rhs)])"
    and "map_of (nonterms st') =
           (\<lambda>nt. case (case map_of (fun_arities st) fid of
                         None \<Rightarrow> map_of (nonterms st)
                       | Some a \<Rightarrow> (map_of (nonterms st))(lhs \<mapsto> Some a)) nt of
                   Some v \<Rightarrow> Some v
                 | None \<Rightarrow> if nt \<in> set rhs then Some None else None)"
proof -
  from assms obtain lhs rhs where rr: "read_rule rest = Inr (lhs, rhs)"
    by (auto simp: rule_decl_def split: sum.splits)
  let ?st1 = "st\<lparr>functions' := setdefault_append fid (lhs, rhs) (functions' st)\<rparr>"
  from assms rr obtain st2 where
    2: "(case map_of (fun_arities st) fid of
           None \<Rightarrow> Inr ?st1
         | Some fun_arity \<Rightarrow> match_arity fid fun_arity lhs ?st1) = Inr st2"
    and 3: "register_rhs rhs st2 = Inr st'"
    by (auto simp: rule_decl_def Let_def split: sum.splits if_splits)
  have f12: "frame ?st1 st2"
    and n2: "map_of (nonterms st2) =
       (case map_of (fun_arities st) fid of
          None \<Rightarrow> map_of (nonterms st)
        | Some a \<Rightarrow> (map_of (nonterms st))(lhs \<mapsto> Some a))"
    using 2 by (auto simp: frame_def dest!: match_arity_Inr split: option.splits)
  from register_rhs_Inr [OF 3] have f23: "frame st2 st'"
    and n3: "map_of (nonterms st') =
      (\<lambda>nt. case map_of (nonterms st2) nt of
              Some v \<Rightarrow> Some v
            | None \<Rightarrow> if nt \<in> set rhs then Some None else None)"
    by simp_all
  show thesis
  proof (rule that [of lhs rhs])
    show "linearizations st' = linearizations st" "sequences st' = sequences st"
      "fun_arities st' = fun_arities st"
      using f12 f23 by (simp_all add: frame_def)
    show "map_of (functions' st') =
           (map_of (functions' st))
             (fid \<mapsto> (case map_of (functions' st) fid of None \<Rightarrow> [] | Some xs \<Rightarrow> xs) @ [(lhs, rhs)])"
      using f12 f23 by (simp add: frame_def map_of_setdefault_append)
    show "map_of (nonterms st') =
           (\<lambda>nt. case (case map_of (fun_arities st) fid of
                         None \<Rightarrow> map_of (nonterms st)
                       | Some a \<Rightarrow> (map_of (nonterms st))(lhs \<mapsto> Some a)) nt of
                   Some v \<Rightarrow> Some v
                 | None \<Rightarrow> if nt \<in> set rhs then Some None else None)"
      unfolding n3 n2 ..
  qed
qed

lemma linearization_decl_Inr:
  assumes "linearization_decl fid rest st = Inr st'"
  obtains lin where
    "map_of (linearizations st) fid = None"
    and "map_of (linearizations st') = (map_of (linearizations st))(fid \<mapsto> lin)"
    and "map_of (fun_arities st') = (map_of (fun_arities st))(fid \<mapsto> length lin)"
    and "functions' st' = functions' st"
    and "map_of (nonterms st') =
           (\<lambda>nt. if nt \<in> fst ` set (case map_of (functions' st) fid of None \<Rightarrow> [] | Some rs \<Rightarrow> rs)
                 then Some (Some (length lin)) else map_of (nonterms st) nt)"
    and "map_of (sequences st') =
           (\<lambda>s. case map_of (sequences st) s of
                  Some v \<Rightarrow> Some v
                | None \<Rightarrow> if s \<in> set lin then Some None else None)"
proof -
  from assms obtain lin where rl: "read_linearization rest = Inr lin"
    and none: "map_of (linearizations st) fid = None"
    by (auto simp: linearization_decl_def split: sum.splits if_splits)
  let ?st1 = "st\<lparr>linearizations := AList.update fid lin (linearizations st),
                 fun_arities := AList.update fid (length lin) (fun_arities st)\<rparr>"
  let ?rules = "case map_of (functions' st) fid of None \<Rightarrow> [] | Some rs \<Rightarrow> rs"
  from assms rl none obtain st2 where
    2: "match_rules fid (length lin) ?rules ?st1 = Inr st2"
    and 3: "st' = st2\<lparr>sequences := fold (\<lambda>seq. setdefault seq None) lin (sequences st2)\<rparr>"
    by (auto simp: linearization_decl_def Let_def split: sum.splits if_splits)
  from match_rules_Inr [OF 2] have f: "frame ?st1 st2"
    and n: "map_of (nonterms st2) =
      (\<lambda>nt. if nt \<in> fst ` set ?rules then Some (Some (length lin)) else map_of (nonterms st) nt)"
    by (simp_all cong: if_cong)
  show thesis
  proof (rule that [of lin])
    show "map_of (linearizations st) fid = None" by (rule none)
    show "map_of (linearizations st') = (map_of (linearizations st))(fid \<mapsto> lin)"
      using f by (simp add: 3 frame_def update_conv')
    show "map_of (fun_arities st') = (map_of (fun_arities st))(fid \<mapsto> length lin)"
      using f by (simp add: 3 frame_def update_conv')
    show "functions' st' = functions' st"
      using f by (simp add: 3 frame_def)
    show "map_of (nonterms st') =
           (\<lambda>nt. if nt \<in> fst ` set ?rules
                 then Some (Some (length lin)) else map_of (nonterms st) nt)"
      unfolding 3 using n by simp
    show "map_of (sequences st') =
           (\<lambda>s. case map_of (sequences st) s of
                  Some v \<Rightarrow> Some v
                | None \<Rightarrow> if s \<in> set lin then Some None else None)"
      using f by (simp add: 3 frame_def map_of_fold_setdefault)
  qed
qed

lemma sequence_decl_Inr:
  assumes "sequence_decl names sid rest st = Inr st'"
  obtains tokens where
    "map_of (sequences st') = (map_of (sequences st))(sid \<mapsto> Some tokens)"
    and "linearizations st' = linearizations st" and "functions' st' = functions' st"
    and "fun_arities st' = fun_arities st" and "nonterms st' = nonterms st"
  using assms
  by (auto simp: sequence_decl_def Let_def update_conv' split: sum.splits if_splits)

lemma score_decl_Inr:
  assumes "score_decl fid keyword rest st = Inr st'"
  shows "sequences st' = sequences st \<and> linearizations st' = linearizations st \<and>
         functions' st' = functions' st \<and> fun_arities st' = fun_arities st \<and>
         nonterms st' = nonterms st"
  using assms
  by (auto simp: score_decl_def split: sum.splits if_splits)

lemma pragma_decl_Inr:
  assumes "pragma_decl rest st = Inr st'"
  shows "sequences st' = sequences st \<and> linearizations st' = linearizations st \<and>
         functions' st' = functions' st \<and> fun_arities st' = fun_arities st \<and>
         nonterms st' = nonterms st"
  using assms
  by (auto simp: pragma_decl_def split: list.splits if_splits)

subsection \<open>The facts kept by each declaration\<close>

lemma invariant_rule_decl:
  assumes inv: "invariant D st" and step: "rule_decl fid rest st = Inr st'"
  shows "invariant D st'"
proof -
  from step obtain lhs rhs where
    lin: "linearizations st' = linearizations st" and seq: "sequences st' = sequences st"
    and fa: "fun_arities st' = fun_arities st"
    and funs: "map_of (functions' st') =
           (map_of (functions' st))
             (fid \<mapsto> (case map_of (functions' st) fid of None \<Rightarrow> [] | Some xs \<Rightarrow> xs) @ [(lhs, rhs)])"
    and nts: "map_of (nonterms st') =
           (\<lambda>nt. case (case map_of (fun_arities st) fid of
                         None \<Rightarrow> map_of (nonterms st)
                       | Some a \<Rightarrow> (map_of (nonterms st))(lhs \<mapsto> Some a)) nt of
                   Some v \<Rightarrow> Some v
                 | None \<Rightarrow> if nt \<in> set rhs then Some None else None)"
    by (rule rule_decl_Inr)
  have 1: "seqs_registered st'" and 2: "bodies_declared D st'" and 5: "fun_arities_ok st'"
    using inv by (simp_all add: invariant_def seqs_registered_def bodies_declared_def
                                fun_arities_ok_def lin seq fa)
  have mono: "map_of (nonterms st') r \<noteq> None" if "map_of (nonterms st) r \<noteq> None" for r
    using that by (auto simp: nts split: option.splits)
  have 3: "rhs_registered st'"
    unfolding rhs_registered_def
  proof (intro allI impI)
    fix f rules lhs' rhs' r
    assume f: "map_of (functions' st') f = Some rules" and m: "(lhs', rhs') \<in> set rules"
      and r: "r \<in> set rhs'"
    show "map_of (nonterms st') r \<noteq> None"
    proof (cases "(lhs', rhs') = (lhs, rhs)")
      case True
      with r show ?thesis by (auto simp: nts split: option.splits)
    next
      case False
      with f m obtain rules0 where "map_of (functions' st) f = Some rules0"
        and "(lhs', rhs') \<in> set rules0"
        by (auto simp: funs split: if_splits option.splits)
      with inv r have "map_of (nonterms st) r \<noteq> None"
        unfolding invariant_def rhs_registered_def by blast
      then show ?thesis by (rule mono)
    qed
  qed
  have keep: "\<exists>rules' . map_of (functions' st') f = Some rules' \<and> set rules \<subseteq> set rules'"
    if "map_of (functions' st) f = Some rules" for f rules
    using that by (auto simp: funs)
  have 4: "arities_inferred st'"
    unfolding arities_inferred_def
  proof (intro allI impI)
    fix nt n
    assume a: "map_of (nonterms st') nt = Some (Some n)"
    then consider (old) "map_of (nonterms st) nt = Some (Some n)"
      | (new) "nt = lhs" "map_of (fun_arities st) fid = Some n"
      by (auto simp: nts split: option.splits if_splits)
    then show "\<exists>f lin rules rhs. map_of (linearizations st') f = Some lin \<and> length lin = n \<and>
           map_of (functions' st') f = Some rules \<and> (nt, rhs) \<in> set rules"
    proof cases
      case old
      with inv obtain f lin rules rhs0 where "map_of (linearizations st) f = Some lin"
        "length lin = n" "map_of (functions' st) f = Some rules" "(nt, rhs0) \<in> set rules"
        unfolding invariant_def arities_inferred_def by blast
      with keep [of f rules] show ?thesis
        unfolding lin by blast
    next
      case new
      with inv obtain lin where "map_of (linearizations st) fid = Some lin" "length lin = n"
        unfolding invariant_def fun_arities_ok_def by blast
      moreover have "\<exists>rules. map_of (functions' st') fid = Some rules \<and> (lhs, rhs) \<in> set rules"
        by (simp add: funs)
      ultimately show ?thesis
        unfolding lin new(1) by blast
    qed
  qed
  from 1 2 3 4 5 show ?thesis by (simp add: invariant_def)
qed

lemma invariant_linearization_decl:
  assumes inv: "invariant D st" and step: "linearization_decl fid rest st = Inr st'"
  shows "invariant D st'"
proof -
  from step obtain lin where
    none: "map_of (linearizations st) fid = None"
    and lins: "map_of (linearizations st') = (map_of (linearizations st))(fid \<mapsto> lin)"
    and fa: "map_of (fun_arities st') = (map_of (fun_arities st))(fid \<mapsto> length lin)"
    and funs: "functions' st' = functions' st"
    and nts: "map_of (nonterms st') =
           (\<lambda>nt. if nt \<in> fst ` set (case map_of (functions' st) fid of None \<Rightarrow> [] | Some rs \<Rightarrow> rs)
                 then Some (Some (length lin)) else map_of (nonterms st) nt)"
    and seqs: "map_of (sequences st') =
           (\<lambda>s. case map_of (sequences st) s of
                  Some v \<Rightarrow> Some v
                | None \<Rightarrow> if s \<in> set lin then Some None else None)"
    by (rule linearization_decl_Inr)
  have 1: "seqs_registered st'"
    unfolding seqs_registered_def
  proof (intro allI impI)
    fix f l s
    assume l: "map_of (linearizations st') f = Some l" and s: "s \<in> set l"
    from l have "l = lin \<or> map_of (linearizations st) f = Some l"
      by (auto simp: lins split: if_splits)
    then consider (new) "l = lin" | (old) "map_of (linearizations st) f = Some l"
      by blast
    then show "map_of (sequences st') s \<noteq> None"
    proof cases
      case new
      with s show ?thesis by (simp add: seqs split: option.splits)
    next
      case old
      with inv s have "map_of (sequences st) s \<noteq> None"
        unfolding invariant_def seqs_registered_def by blast
      then show ?thesis by (auto simp: seqs)
    qed
  qed
  have body: "map_of (sequences st) s = Some (Some toks)"
    if "map_of (sequences st') s = Some (Some toks)" for s toks
    using that by (simp add: seqs split: option.splits if_splits)
  have 2: "bodies_declared D st'"
    using inv body unfolding invariant_def bodies_declared_def by blast
  have mono: "map_of (nonterms st') r \<noteq> None" if "map_of (nonterms st) r \<noteq> None" for r
    using that by (simp add: nts)
  have 3: "rhs_registered st'"
    using inv mono unfolding invariant_def rhs_registered_def funs by blast
  have old_lin: "map_of (linearizations st') f = Some l"
    if "map_of (linearizations st) f = Some l" for f l
    using that none by (auto simp: lins)
  define R where "R = (case map_of (functions' st) fid of None \<Rightarrow> [] | Some rs \<Rightarrow> rs)"
  have nts': "map_of (nonterms st') nt =
      (if nt \<in> fst ` set R then Some (Some (length lin)) else map_of (nonterms st) nt)" for nt
    by (simp add: nts R_def)
  have 4: "arities_inferred st'"
    unfolding arities_inferred_def
  proof (intro allI impI)
    fix nt n
    assume a: "map_of (nonterms st') nt = Some (Some n)"
    show "\<exists>f lin rules rhs. map_of (linearizations st') f = Some lin \<and> length lin = n \<and>
           map_of (functions' st') f = Some rules \<and> (nt, rhs) \<in> set rules"
    proof (cases "nt \<in> fst ` set R")
      case True
      with a have n: "n = length lin" by (simp add: nts')
      from True obtain rhs0 where m: "(nt, rhs0) \<in> set R" by auto
      then have "R \<noteq> []" by auto
      then have R: "map_of (functions' st) fid = Some R"
        by (simp add: R_def split: option.splits)
      have "map_of (linearizations st') fid = Some lin" by (simp add: lins)
      with n m R show ?thesis
        unfolding funs by blast
    next
      case False
      with a have "map_of (nonterms st) nt = Some (Some n)" by (simp add: nts')
      with inv obtain f lin0 rules rhs0 where "map_of (linearizations st) f = Some lin0"
        "length lin0 = n" "map_of (functions' st) f = Some rules" "(nt, rhs0) \<in> set rules"
        unfolding invariant_def arities_inferred_def by blast
      with old_lin [of f lin0] show ?thesis
        unfolding funs by blast
    qed
  qed
  have 5: "fun_arities_ok st'"
    unfolding fun_arities_ok_def
  proof (intro allI impI)
    fix f a
    assume "map_of (fun_arities st') f = Some a"
    then have "(f = fid \<and> a = length lin) \<or> map_of (fun_arities st) f = Some a"
      by (auto simp: fa split: if_splits)
    then consider (new) "f = fid" "a = length lin"
      | (old) "map_of (fun_arities st) f = Some a"
      by blast
    then show "\<exists>lin. map_of (linearizations st') f = Some lin \<and> length lin = a"
    proof cases
      case new
      then show ?thesis by (simp add: lins)
    next
      case old
      with inv obtain l where "map_of (linearizations st) f = Some l" "length l = a"
        unfolding invariant_def fun_arities_ok_def by blast
      with old_lin [of f l] show ?thesis by blast
    qed
  qed
  from 1 2 3 4 5 show ?thesis by (simp add: invariant_def)
qed

lemma invariant_sequence_decl:
  assumes inv: "invariant D st" and step: "sequence_decl names sid rest st = Inr st'"
  shows "invariant (insert sid D) st'"
proof -
  from step obtain tokens where
    seqs: "map_of (sequences st') = (map_of (sequences st))(sid \<mapsto> Some tokens)"
    and eq: "linearizations st' = linearizations st" "functions' st' = functions' st"
      "fun_arities st' = fun_arities st" "nonterms st' = nonterms st"
    by (rule sequence_decl_Inr)
  from inv show ?thesis
    unfolding invariant_def seqs_registered_def bodies_declared_def rhs_registered_def
      arities_inferred_def fun_arities_ok_def eq seqs
    by auto
qed

lemma invariant_frame:
  assumes inv: "invariant D st"
    and eq: "sequences st' = sequences st \<and> linearizations st' = linearizations st \<and>
         functions' st' = functions' st \<and> fun_arities st' = fun_arities st \<and>
         nonterms st' = nonterms st"
  shows "invariant D st'"
  using inv eq
  unfolding invariant_def seqs_registered_def bodies_declared_def rhs_registered_def
    arities_inferred_def fun_arities_ok_def
  by simp

lemma invariant_mono: "invariant D st \<Longrightarrow> D \<subseteq> D' \<Longrightarrow> invariant D' st"
  unfolding invariant_def bodies_declared_def by blast

subsection \<open>The facts kept by the loop\<close>

lemma invariant_ident: "invariant D (st\<lparr>ident := x\<rparr>) = invariant D st"
  by (simp add: invariant_def seqs_registered_def bodies_declared_def rhs_registered_def
                arities_inferred_def fun_arities_ok_def)

lemma process_line_declaration:
  assumes "declaration_fields line = Some (fid, keyword, rest)"
  shows "process_line names line st =
     (if \<not> is_identifier fid then Inl (not_an_identifier fid)
      else if keyword = RULE then rule_decl fid rest (st\<lparr>ident := Some fid\<rparr>)
      else if keyword = LINEARIZATION then linearization_decl fid rest (st\<lparr>ident := Some fid\<rparr>)
      else if keyword = SEQUENCE then sequence_decl names fid rest (st\<lparr>ident := Some fid\<rparr>)
      else score_decl fid keyword rest (st\<lparr>ident := Some fid\<rparr>))"
  using assms
  by (auto simp: declaration_fields_def process_line_def Let_def
           split: if_splits list.splits)

lemma process_line_other:
  assumes "declaration_fields line = None" and "process_line names line st = Inr st'"
  shows "st' = st \<or> (\<exists>rest. pragma_decl rest st = Inr st')"
  using assms
  by (auto simp: declaration_fields_def process_line_def Let_def
           split: if_splits list.splits)

lemma invariant_process_line:
  assumes inv: "invariant D st" and step: "process_line names line st = Inr st'"
  shows "invariant (D \<union> {s. sequence_ident line = Some s}) st'"
proof (cases "declaration_fields line")
  case None
  from process_line_other [OF None step] have "invariant D st'"
  proof
    assume "st' = st"
    with inv show ?thesis by simp
  next
    assume "\<exists>rest. pragma_decl rest st = Inr st'"
    then obtain rest where "pragma_decl rest st = Inr st'" ..
    from invariant_frame [OF inv pragma_decl_Inr [OF this]] show ?thesis .
  qed
  then show ?thesis by (rule invariant_mono) simp
next
  case (Some fields)
  obtain fid keyword rest where fields: "fields = (fid, keyword, rest)"
    by (cases fields)
  note d = Some [unfolded fields]
  let ?st = "st\<lparr>ident := Some fid\<rparr>"
  have i: "invariant D ?st" using inv by (simp add: invariant_ident)
  note p = step [unfolded process_line_declaration [OF d]]
  have sid: "sequence_ident line = (if keyword = SEQUENCE then Some fid else None)"
    by (simp add: sequence_ident_def d)
  consider (rule) "rule_decl fid rest ?st = Inr st'"
    | (linearization) "linearization_decl fid rest ?st = Inr st'"
    | (sequence) "keyword = SEQUENCE" "sequence_decl names fid rest ?st = Inr st'"
    | (score) "score_decl fid keyword rest ?st = Inr st'"
    using p by (auto split: if_splits)
  then show ?thesis
  proof cases
    case rule
    from invariant_rule_decl [OF i rule] show ?thesis
      by (rule invariant_mono) simp
  next
    case linearization
    from invariant_linearization_decl [OF i linearization] show ?thesis
      by (rule invariant_mono) simp
  next
    case sequence
    from invariant_sequence_decl [OF i sequence(2)] show ?thesis
      by (rule invariant_mono) (simp add: sid sequence(1))
  next
    case score
    from invariant_frame [OF i score_decl_Inr [OF score]] show ?thesis
      by (rule invariant_mono) simp
  qed
qed

lemma invariant_read_lines:
  "invariant D st \<Longrightarrow> read_lines names fi n lines st = Inr st' \<Longrightarrow>
   invariant (D \<union> {s. Some s \<in> sequence_ident ` set lines}) st'"
proof (induction lines arbitrary: D st n)
  case Nil
  then show ?case by simp
next
  case (Cons line lines)
  from Cons.prems(2) obtain st1 where 1: "process_line names line st = Inr st1"
    and 2: "read_lines names fi (Suc n) lines st1 = Inr st'"
    by (auto split: sum.splits)
  from invariant_process_line [OF Cons.prems(1) 1]
  have "invariant (D \<union> {s. sequence_ident line = Some s}) st1" .
  from Cons.IH [OF this 2] show ?case
    by (rule invariant_mono) auto
qed

lemma invariant_initial: "invariant {} initial_state"
  by (simp add: invariant_def seqs_registered_def bodies_declared_def rhs_registered_def
                arities_inferred_def fun_arities_ok_def initial_state_def)

lemma read_grammar_Inr:
  assumes "read_grammar names fi lines validate = (ws, Inr g)"
  shows "\<exists>st. read_lines names fi 0 lines initial_state = Inr st \<and>
              g = \<lparr>pragmas = pragmas st, functions' = functions' st,
                   linearizations = linearizations st, sequences = sequences st,
                   scores = scores st, nonterms = nonterms st\<rparr>"
  using assms
  by (auto simp: read_grammar_def split: sum.splits prod.splits option.splits if_splits)

text \<open>
  C10: when \<^verbatim>\<open>read_grammar\<close> returns, the dictionary it returns holds the six local
  dictionaries under the six keys. Every sequence identifier of a linearization is a key of
  \<^verbatim>\<open>sequences\<close>, and its value is \<^verbatim>\<open>None\<close> unless a line of the input declared a body for
  it. Every nonterminal of the right-hand side of a rule is a key of \<^verbatim>\<open>nonterms\<close>, and its
  value is \<^verbatim>\<open>None\<close> unless an arity was inferred for it: it is then the left-hand side of
  a rule of a function whose linearization has that length.
\<close>

theorem read_grammar_placeholders:
  assumes "read_grammar names fi lines validate = (ws, Inr g)"
  shows
    "(\<exists>st. read_lines names fi 0 lines initial_state = Inr st \<and>
           g = \<lparr>pragmas = pragmas st, functions' = functions' st,
                linearizations = linearizations st, sequences = sequences st,
                scores = scores st, nonterms = nonterms st\<rparr>)
     \<and> (\<forall>f lin s. map_of (linearizations g) f = Some lin \<and> s \<in> set lin \<longrightarrow>
          map_of (sequences g) s = Some None \<or>
          (\<exists>tokens. map_of (sequences g) s = Some (Some tokens)) \<and>
          Some s \<in> sequence_ident ` set lines)
     \<and> (\<forall>f rules lhs rhs r.
          map_of (functions' g) f = Some rules \<and> (lhs, rhs) \<in> set rules \<and> r \<in> set rhs \<longrightarrow>
          map_of (nonterms g) r = Some None \<or>
          (\<exists>n f' lin' rules' rhs'.
             map_of (nonterms g) r = Some (Some n) \<and>
             map_of (linearizations g) f' = Some lin' \<and> length lin' = n \<and>
             map_of (functions' g) f' = Some rules' \<and> (r, rhs') \<in> set rules'))"
proof -
  from read_grammar_Inr [OF assms] obtain st where
    st: "read_lines names fi 0 lines initial_state = Inr st"
    and g: "g = \<lparr>pragmas = pragmas st, functions' = functions' st,
                 linearizations = linearizations st, sequences = sequences st,
                 scores = scores st, nonterms = nonterms st\<rparr>"
    by blast
  from invariant_read_lines [OF invariant_initial st]
  have inv: "invariant {s. Some s \<in> sequence_ident ` set lines} st" by simp
  have 1: "map_of (sequences st) s = Some None \<or>
          (\<exists>tokens. map_of (sequences st) s = Some (Some tokens)) \<and>
          Some s \<in> sequence_ident ` set lines"
    if "map_of (linearizations st) f = Some lin" "s \<in> set lin" for f lin s
  proof -
    from inv that have "map_of (sequences st) s \<noteq> None"
      unfolding invariant_def seqs_registered_def by blast
    then obtain v where v: "map_of (sequences st) s = Some v" by blast
    show ?thesis
    proof (cases v)
      case None
      with v show ?thesis by simp
    next
      case (Some tokens)
      with inv v have "Some s \<in> sequence_ident ` set lines"
        unfolding invariant_def bodies_declared_def by blast
      with v Some show ?thesis by simp
    qed
  qed
  have 2: "map_of (nonterms st) r = Some None \<or>
          (\<exists>n f' lin' rules' rhs'.
             map_of (nonterms st) r = Some (Some n) \<and>
             map_of (linearizations st) f' = Some lin' \<and> length lin' = n \<and>
             map_of (functions' st) f' = Some rules' \<and> (r, rhs') \<in> set rules')"
    if "map_of (functions' st) f = Some rules" "(lhs, rhs) \<in> set rules" "r \<in> set rhs"
    for f rules lhs rhs r
  proof -
    from inv that have "map_of (nonterms st) r \<noteq> None"
      unfolding invariant_def rhs_registered_def by blast
    then obtain v where v: "map_of (nonterms st) r = Some v" by blast
    show ?thesis
    proof (cases v)
      case None
      with v show ?thesis by simp
    next
      case (Some n)
      with inv v have "\<exists>f lin rules rhs. map_of (linearizations st) f = Some lin \<and>
          length lin = n \<and> map_of (functions' st) f = Some rules \<and> (r, rhs) \<in> set rules"
        unfolding invariant_def arities_inferred_def by blast
      with v Some show ?thesis by blast
    qed
  qed
  show ?thesis
  proof (intro conjI)
    show "\<exists>st. read_lines names fi 0 lines initial_state = Inr st \<and>
           g = \<lparr>pragmas = pragmas st, functions' = functions' st,
                linearizations = linearizations st, sequences = sequences st,
                scores = scores st, nonterms = nonterms st\<rparr>"
      using st g by blast
  next
    show "\<forall>f lin s. map_of (linearizations g) f = Some lin \<and> s \<in> set lin \<longrightarrow>
          map_of (sequences g) s = Some None \<or>
          (\<exists>tokens. map_of (sequences g) s = Some (Some tokens)) \<and>
          Some s \<in> sequence_ident ` set lines"
    proof (intro allI impI)
      fix f lin s
      assume "map_of (linearizations g) f = Some lin \<and> s \<in> set lin"
      then show "map_of (sequences g) s = Some None \<or>
          (\<exists>tokens. map_of (sequences g) s = Some (Some tokens)) \<and>
          Some s \<in> sequence_ident ` set lines"
        using 1 [of f lin s] by (simp add: g)
    qed
  next
    show "\<forall>f rules lhs rhs r.
          map_of (functions' g) f = Some rules \<and> (lhs, rhs) \<in> set rules \<and> r \<in> set rhs \<longrightarrow>
          map_of (nonterms g) r = Some None \<or>
          (\<exists>n f' lin' rules' rhs'.
             map_of (nonterms g) r = Some (Some n) \<and>
             map_of (linearizations g) f' = Some lin' \<and> length lin' = n \<and>
             map_of (functions' g) f' = Some rules' \<and> (r, rhs') \<in> set rules')"
    proof (intro allI impI)
      fix f rules lhs rhs r
      assume "map_of (functions' g) f = Some rules \<and> (lhs, rhs) \<in> set rules \<and> r \<in> set rhs"
      then show "map_of (nonterms g) r = Some None \<or>
          (\<exists>n f' lin' rules' rhs'.
             map_of (nonterms g) r = Some (Some n) \<and>
             map_of (linearizations g) f' = Some lin' \<and> length lin' = n \<and>
             map_of (functions' g) f' = Some rules' \<and> (r, rhs') \<in> set rules')"
        using 2 [of f rules lhs rhs r] by (simp add: g)
    qed
  qed
qed

subsection \<open>Scores, pragmas and the example of the arities\<close>

text \<open>
  C9: on a declaration line whose keyword is none of the three markers, the keyword is read
  as a score, with \<^verbatim>\<open>int\<close> first and \<^verbatim>\<open>float\<close> second. If both conversions fail, the line
  raises a SyntaxError; if one succeeds and text follows the number, the line raises a
  SyntaxError as well (when the identifier of the line is malformed, the SyntaxError is the
  one of the identifier). With a well-formed identifier that has no score yet and nothing
  after the number, the score recorded is the integer when \<^verbatim>\<open>int\<close> accepts the keyword, and
  the float otherwise. \<^verbatim>\<open>read_grammar\<close> raises the SyntaxError again with the position of
  the line added to the message.
\<close>

theorem score_declaration:
  assumes "declaration_fields line = Some (fid, keyword, rest)"
    and "keyword \<noteq> RULE" and "keyword \<noteq> LINEARIZATION" and "keyword \<noteq> SEQUENCE"
  shows
    "(py_int keyword = None \<and> py_float keyword = None \<longrightarrow>
        process_line names line st =
          Inl (SyntaxError (if is_identifier fid then ''Not a correct score: '' @ repr keyword
                            else ''Not an identifier: '' @ repr fid)))
     \<and> ((py_int keyword \<noteq> None \<or> py_float keyword \<noteq> None) \<and> rest \<noteq> [] \<longrightarrow>
        process_line names line st =
          Inl (SyntaxError (if is_identifier fid
                            then ''Extra information in score declaration: '' @ repr rest
                            else ''Not an identifier: '' @ repr fid)))
     \<and> (is_identifier fid \<and> rest = [] \<and> \<not> dict_in fid (scores st) \<longrightarrow>
        process_line names line st =
          (case py_int keyword of
             Some i \<Rightarrow>
               Inr (st\<lparr>ident := Some fid, scores := AList.update fid (IntScore i) (scores st)\<rparr>)
           | None \<Rightarrow>
               (case py_float keyword of
                  Some x \<Rightarrow>
                    Inr (st\<lparr>ident := Some fid, scores := AList.update fid x (scores st)\<rparr>)
                | None \<Rightarrow> Inl (SyntaxError (''Not a correct score: '' @ repr keyword)))))
     \<and> (\<forall>msg. process_line names line st = Inl (SyntaxError msg) \<longrightarrow>
          read_lines names fi n (line # lines) st =
            Inl (case happened (fi n) line of
                   Inl e \<Rightarrow> e
                 | Inr arg \<Rightarrow> SyntaxError (msg @ '' '' @ arg)))"
  using assms
  by (auto simp: process_line_declaration score_decl_def read_score_def not_an_identifier_def
                 handler_def
           split: option.splits)


lemma split_ws_0: "split_ws (Some 0) s = (if lstrip s = [] then [] else [lstrip s])"
  by (simp add: split_ws.simps [of "Some 0" s] lstrip_def Let_def)

lemma whitespace_split_1:
  assumes "r \<noteq> []" and "\<not> isspace_char (hd r)"
  shows "whitespace_split r 1 =
           [takeWhile (\<lambda>c. \<not> isspace_char c) r, lstrip (dropWhile (\<lambda>c. \<not> isspace_char c) r)]"
proof -
  from assms have d: "dropWhile isspace_char r = r"
    by (cases r) simp_all
  have "split_ws (Some 1) r =
          takeWhile (\<lambda>c. \<not> isspace_char c) r #
          split_ws (Some 0) (dropWhile (\<lambda>c. \<not> isspace_char c) r)"
    using assms(1) by (subst split_ws.simps) (simp add: d)
  then show ?thesis
    by (simp add: whitespace_split_def split_def split_ws_0 numeral_2_eq_2)
qed

lemma strip_lstrip: "strip (lstrip s) = strip s"
  by (simp add: strip_def lstrip_def)

lemma takeWhile_not_Nil: "r \<noteq> [] \<Longrightarrow> \<not> P (hd r) \<Longrightarrow> takeWhile (\<lambda>c. \<not> P c) r \<noteq> []"
  by (cases r) simp_all

lemma process_line_pragma:
  assumes "lstrip line = CHR '':'' # r"
  shows "process_line names line st = pragma_decl (CHR '':'' # r) st"
  using assms by (simp add: process_line_def COMMENT_def PRAGMA_def)

text \<open>
  X3: on a pragma line, a marker followed by a white-space character records the rest of
  the line, stripped, under the key \<^verbatim>\<open>None\<close>; a marker followed by a character that is not
  white space records a named pragma, the name being the text up to the next white space
  and the payload the rest, stripped.
\<close>

theorem pragma_lines:
  assumes "lstrip line = CHR '':'' # r"
  shows
    "(r \<noteq> [] \<and> isspace_char (hd r) \<longrightarrow>
        process_line names line st =
          Inr (st\<lparr>pragmas := setdefault_append None (strip r) (pragmas st)\<rparr>))
     \<and> (r \<noteq> [] \<and> \<not> isspace_char (hd r) \<longrightarrow>
        takeWhile (\<lambda>c. \<not> isspace_char c) r \<noteq> [] \<and>
        process_line names line st =
          Inr (st\<lparr>pragmas :=
                 setdefault_append (Some (takeWhile (\<lambda>c. \<not> isspace_char c) r))
                   (strip (dropWhile (\<lambda>c. \<not> isspace_char c) r)) (pragmas st)\<rparr>))"
proof (intro conjI impI)
  assume "r \<noteq> [] \<and> isspace_char (hd r)"
  then show "process_line names line st =
          Inr (st\<lparr>pragmas := setdefault_append None (strip r) (pragmas st)\<rparr>)"
    by (cases r) (simp_all add: process_line_pragma [OF assms] pragma_decl_def isspace_def)
next
  assume h: "r \<noteq> [] \<and> \<not> isspace_char (hd r)"
  then show "takeWhile (\<lambda>c. \<not> isspace_char c) r \<noteq> []"
    by (simp add: takeWhile_not_Nil)
  from h show "process_line names line st =
          Inr (st\<lparr>pragmas :=
                 setdefault_append (Some (takeWhile (\<lambda>c. \<not> isspace_char c) r))
                   (strip (dropWhile (\<lambda>c. \<not> isspace_char c) r)) (pragmas st)\<rparr>)"
    by (cases r)
       (simp_all add: process_line_pragma [OF assms] pragma_decl_def isspace_def
                      whitespace_split_1 strip_lstrip)
qed

text \<open>
  The lines \<^verbatim>\<open>f abc\<close>, \<^verbatim>\<open>f 1.5 x\<close>, \<^verbatim>\<open>f 12\<close> and \<^verbatim>\<open>f 1.5\<close>, by the theorem.
\<close>

theorem score_declaration_witness:
  "\<forall>names.
   process_line names ''f abc'' initial_state = Inl (SyntaxError (''Not a correct score: '' @ QUOTE # ''abc'' @ [QUOTE]))
   \<and> process_line names ''f 1.5 x'' initial_state =
       Inl (SyntaxError (''Extra information in score declaration: '' @ QUOTE # ''x'' @ [QUOTE]))
   \<and> process_line names ''f 12'' initial_state =
       Inr (initial_state\<lparr>ident := Some ''f'', scores := [(''f'', IntScore 12)]\<rparr>)
   \<and> process_line names ''f 1.5'' initial_state =
       Inr (initial_state\<lparr>ident := Some ''f'', scores := [(''f'', FloatScore ''1.5'')]\<rparr>)"
proof
  fix names :: "string \<Rightarrow> nat option"
  have k: "''abc'' \<noteq> RULE" "''abc'' \<noteq> LINEARIZATION" "''abc'' \<noteq> SEQUENCE"
    "''1.5'' \<noteq> RULE" "''1.5'' \<noteq> LINEARIZATION" "''1.5'' \<noteq> SEQUENCE"
    "''12'' \<noteq> RULE" "''12'' \<noteq> LINEARIZATION" "''12'' \<noteq> SEQUENCE"
    by (simp_all add: RULE_def LINEARIZATION_def SEQUENCE_def)
  have d1: "declaration_fields ''f abc'' = Some (''f'', ''abc'', [])" by code_simp
  have d2: "declaration_fields ''f 1.5 x'' = Some (''f'', ''1.5'', ''x'')" by code_simp
  have d3: "declaration_fields ''f 12'' = Some (''f'', ''12'', [])" by code_simp
  have d4: "declaration_fields ''f 1.5'' = Some (''f'', ''1.5'', [])" by code_simp
  have v: "py_int ''abc'' = None" "py_float ''abc'' = None" "py_int ''1.5'' = None"
    "py_float ''1.5'' = Some (FloatScore ''1.5'')" "py_int ''12'' = Some 12"
    "is_identifier ''f''" "\<not> dict_in ''f'' (scores initial_state)"
    "repr ''abc'' = QUOTE # ''abc'' @ [QUOTE]" "repr ''x'' = QUOTE # ''x'' @ [QUOTE]"
    "scores initial_state = []"
    by code_simp+
  note t1 = score_declaration [OF d1 k(1-3), where st = initial_state and names = names]
    and t2 = score_declaration [OF d2 k(4-6), where st = initial_state and names = names]
    and t3 = score_declaration [OF d3 k(7-9), where st = initial_state and names = names]
    and t4 = score_declaration [OF d4 k(4-6), where st = initial_state and names = names]
  have 1: "process_line names ''f abc'' initial_state =
      Inl (SyntaxError (''Not a correct score: '' @ QUOTE # ''abc'' @ [QUOTE]))"
    using t1 [THEN conjunct1] v by simp
  have 2: "process_line names ''f 1.5 x'' initial_state =
       Inl (SyntaxError (''Extra information in score declaration: '' @ QUOTE # ''x'' @ [QUOTE]))"
    using t2 [THEN conjunct2, THEN conjunct1] v by simp
  have 3: "process_line names ''f 12'' initial_state =
       Inr (initial_state\<lparr>ident := Some ''f'', scores := [(''f'', IntScore 12)]\<rparr>)"
    using t3 [THEN conjunct2, THEN conjunct2, THEN conjunct1] v by simp
  have 4: "process_line names ''f 1.5'' initial_state =
       Inr (initial_state\<lparr>ident := Some ''f'', scores := [(''f'', FloatScore ''1.5'')]\<rparr>)"
    using t4 [THEN conjunct2, THEN conjunct2, THEN conjunct1] v by simp
  from 1 2 3 4 show
    "process_line names ''f abc'' initial_state = Inl (SyntaxError (''Not a correct score: '' @ QUOTE # ''abc'' @ [QUOTE]))
   \<and> process_line names ''f 1.5 x'' initial_state =
       Inl (SyntaxError (''Extra information in score declaration: '' @ QUOTE # ''x'' @ [QUOTE]))
   \<and> process_line names ''f 12'' initial_state =
       Inr (initial_state\<lparr>ident := Some ''f'', scores := [(''f'', IntScore 12)]\<rparr>)
   \<and> process_line names ''f 1.5'' initial_state =
       Inr (initial_state\<lparr>ident := Some ''f'', scores := [(''f'', FloatScore ''1.5'')]\<rparr>)"
    by blast
qed

text \<open>
  The lines \<^verbatim>\<open>: encoding utf8\<close> and \<^verbatim>\<open>:foo  bar baz\<close>, by the theorem.
\<close>

theorem pragma_lines_witness:
  "\<forall>names.
   process_line names '': encoding utf8'' initial_state =
     Inr (initial_state\<lparr>pragmas := [(None, [''encoding utf8''])]\<rparr>)
   \<and> process_line names '':foo  bar baz '' initial_state =
     Inr (initial_state\<lparr>pragmas := [(Some ''foo'', [''bar baz''])]\<rparr>)"
proof
  fix names :: "string \<Rightarrow> nat option"
  have l: "lstrip '': encoding utf8'' = CHR '':'' # '' encoding utf8''"
    "lstrip '':foo  bar baz '' = CHR '':'' # ''foo  bar baz ''"
    by code_simp+
  have v: "isspace_char (CHR '' '')" "\<not> isspace_char (CHR ''f'')"
    "strip '' encoding utf8'' = ''encoding utf8''"
    "takeWhile (\<lambda>c. \<not> isspace_char c) ''foo  bar baz '' = ''foo''"
    "strip (dropWhile (\<lambda>c. \<not> isspace_char c) ''foo  bar baz '') = ''bar baz''"
    "pragmas initial_state = []"
    by code_simp+
  have s: "setdefault_append k x [] = [(k, [x])]" for k :: "string option" and x :: string
    by (simp add: setdefault_append_def)
  have 1: "process_line names '': encoding utf8'' initial_state =
     Inr (initial_state\<lparr>pragmas := [(None, [''encoding utf8''])]\<rparr>)"
    using pragma_lines [OF l(1), where st = initial_state and names = names, THEN conjunct1] v
    by (simp add: s)
  have 2: "process_line names '':foo  bar baz '' initial_state =
     Inr (initial_state\<lparr>pragmas := [(Some ''foo'', [''bar baz''])]\<rparr>)"
    using pragma_lines [OF l(2), where st = initial_state and names = names, THEN conjunct2] v
    by (simp add: s)
  from 1 2 show
    "process_line names '': encoding utf8'' initial_state =
       Inr (initial_state\<lparr>pragmas := [(None, [''encoding utf8''])]\<rparr>)
     \<and> process_line names '':foo  bar baz '' initial_state =
       Inr (initial_state\<lparr>pragmas := [(Some ''foo'', [''bar baz''])]\<rparr>)"
    by blast
qed

text \<open>
  C3 as stated fails: for the lines \<^verbatim>\<open>f : S <- A\<close> and \<^verbatim>\<open>f = l1 l2\<close>, \<^verbatim>\<open>read_grammar\<close> without
  the deferred sweep raises nothing and returns the model in which \<^verbatim>\<open>S\<close> has arity 2.
\<close>

theorem arity_example_no_error:
  "\<forall>names.
   read_grammar names stdin [''f : S <- A'', ''f = l1 l2''] False =
     ([], Inr \<lparr>pragmas = [], functions' = [(''f'', [(''S'', [''A''])])],
              linearizations = [(''f'', [''l1'', ''l2''])],
              sequences = [(''l1'', None), (''l2'', None)], scores = [],
              nonterms = [(''A'', None), (''S'', Some 2)]\<rparr>)"
proof
  fix names :: "string \<Rightarrow> nat option"
  show "read_grammar names stdin [''f : S <- A'', ''f = l1 l2''] False =
     ([], Inr \<lparr>pragmas = [], functions' = [(''f'', [(''S'', [''A''])])],
              linearizations = [(''f'', [''l1'', ''l2''])],
              sequences = [(''l1'', None), (''l2'', None)], scores = [],
              nonterms = [(''A'', None), (''S'', Some 2)]\<rparr>)"
    by code_simp
qed

text \<open>
  C3, as amended: for the lines \<^verbatim>\<open>f : S <- A\<close> and \<^verbatim>\<open>f = l1 l2\<close> the loop over the lines raises
  no error, whatever the line source. The rule does not fix the arity of \<^verbatim>\<open>S\<close> (after it,
  \<^verbatim>\<open>nonterms\<close> holds \<^verbatim>\<open>A\<close> alone, with no arity: the length of a right-hand side is not an
  arity); the linearization then sets the arity of \<^verbatim>\<open>S\<close> to 2, the arity of \<^verbatim>\<open>f\<close>; and
  \<^verbatim>\<open>read_grammar\<close> with \<^verbatim>\<open>validate=False\<close> returns this model.
\<close>

theorem arity_example_incremental:
  "read_lines names fi 0 [''f : S <- A''] initial_state =
     Inr \<lparr>pragmas = [], functions' = [(''f'', [(''S'', [''A''])])], linearizations = [],
          sequences = [], scores = [], nonterms = [(''A'', None)],
          fun_arities = [], seq_arities = [], ident = Some ''f''\<rparr>
   \<and> read_lines names fi 0 [''f : S <- A'', ''f = l1 l2''] initial_state =
     Inr \<lparr>pragmas = [], functions' = [(''f'', [(''S'', [''A''])])],
          linearizations = [(''f'', [''l1'', ''l2''])],
          sequences = [(''l1'', None), (''l2'', None)], scores = [],
          nonterms = [(''A'', None), (''S'', Some 2)],
          fun_arities = [(''f'', 2)], seq_arities = [], ident = Some ''f''\<rparr>
   \<and> read_grammar names fi [''f : S <- A'', ''f = l1 l2''] False =
     ([], Inr \<lparr>pragmas = [], functions' = [(''f'', [(''S'', [''A''])])],
              linearizations = [(''f'', [''l1'', ''l2''])],
              sequences = [(''l1'', None), (''l2'', None)], scores = [],
              nonterms = [(''A'', None), (''S'', Some 2)]\<rparr>)"
  by code_simp

text \<open>
  The lines \<^verbatim>\<open>f : S <- A\<close>, \<^verbatim>\<open>f = l1 l2\<close> and \<^verbatim>\<open>l2 -> '\u2603'\<close>: the sequence \<^verbatim>\<open>l1\<close> and the
  nonterminal \<^verbatim>\<open>A\<close> are present with the value \<^verbatim>\<open>None\<close>, by the theorem.
\<close>

theorem read_grammar_placeholders_witness:
  "\<forall>names.
   read_grammar names stdin
       [''f : S <- A'', ''f = l1 l2'', ''l2 -> '' @ QUOTE # BACKSLASH # ''u2603'' @ [QUOTE]] False =
     ([], Inr \<lparr>pragmas = [], functions' = [(''f'', [(''S'', [''A''])])],
              linearizations = [(''f'', [''l1'', ''l2''])],
              sequences = [(''l1'', None), (''l2'', Some [Terminal [9731]])], scores = [],
              nonterms = [(''A'', None), (''S'', Some 2)]\<rparr>)
   \<and> map_of [(''l1'', None), (''l2'', Some [Terminal [9731]])] ''l1'' = Some None
   \<and> map_of [(''A'', None), (''S'', Some (2::nat))] ''A'' = Some None"
proof
  fix names :: "string \<Rightarrow> nat option"
  let ?g = "\<lparr>pragmas = [], functions' = [(''f'', [(''S'', [''A''])])],
              linearizations = [(''f'', [''l1'', ''l2''])],
              sequences = [(''l1'', None), (''l2'', Some [Terminal [9731]])], scores = [],
              nonterms = [(''A'', None), (''S'', Some 2)]\<rparr>"
  have e: "read_grammar names stdin
       [''f : S <- A'', ''f = l1 l2'', ''l2 -> '' @ QUOTE # BACKSLASH # ''u2603'' @ [QUOTE]] False = ([], Inr ?g)"
    by code_simp
  note T = read_grammar_placeholders [OF e]
  have 1: "map_of (sequences ?g) ''l1'' = Some None"
    using T [THEN conjunct2, THEN conjunct1, THEN spec, THEN spec, THEN spec,
             of "''f''" "[''l1'', ''l2'']" "''l1''"]
    by simp
  have 2: "map_of (nonterms ?g) ''A'' = Some None"
    using T [THEN conjunct2, THEN conjunct2, THEN spec, THEN spec, THEN spec, THEN spec,
             THEN spec, of "''f''" "[(''S'', [''A''])]" "''S''" "[''A'']" "''A''"]
    by simp
  from e 1 2 show
    "read_grammar names stdin
       [''f : S <- A'', ''f = l1 l2'', ''l2 -> '' @ QUOTE # BACKSLASH # ''u2603'' @ [QUOTE]] False =
     ([], Inr \<lparr>pragmas = [], functions' = [(''f'', [(''S'', [''A''])])],
              linearizations = [(''f'', [''l1'', ''l2''])],
              sequences = [(''l1'', None), (''l2'', Some [Terminal [9731]])], scores = [],
              nonterms = [(''A'', None), (''S'', Some 2)]\<rparr>)
   \<and> map_of [(''l1'', None), (''l2'', Some [Terminal [9731]])] ''l1'' = Some None
   \<and> map_of [(''A'', None), (''S'', Some (2::nat))] ''A'' = Some None"
    by simp
qed

section \<open>Further properties\<close>

lemma length_split_ws: "length (split_ws (Some n) s) \<le> Suc n"
proof (induction "Some n" s arbitrary: n rule: split_ws.induct)
  case (1 s)
  show ?case
  proof (cases n)
    case 0
    then show ?thesis by (simp add: split_ws.simps [of "Some 0" s] Let_def)
  next
    case (Suc m)
    let ?s' = "dropWhile isspace_char s"
    show ?thesis
    proof (cases "?s' = []")
      case True
      then show ?thesis by (simp add: split_ws.simps [of "Some n" s] Let_def)
    next
      case False
      have "length (split_ws (Some m) (dropWhile (\<lambda>c. \<not> isspace_char c) ?s')) \<le> Suc m"
        using "1.hyps" [of ?s' m] False Suc by simp
      moreover have "split_ws (Some n) s =
          takeWhile (\<lambda>c. \<not> isspace_char c) ?s' #
          split_ws (Some m) (dropWhile (\<lambda>c. \<not> isspace_char c) ?s')"
        using False Suc by (subst split_ws.simps) (simp add: Let_def)
      ultimately show ?thesis using Suc by simp
    qed
  qed
qed

text \<open>
  X1: \<^verbatim>\<open>whitespace_split(s, nrsplits)\<close> with \<^verbatim>\<open>nrsplits >= 0\<close> always returns
  \<^verbatim>\<open>nrsplits + 1\<close> strings, as its docstring says; so the unpacking into two names at line 142
  and into three names at line 147 never fails.
\<close>

theorem whitespace_split_length:
  assumes "0 \<le> nrsplits"
  shows "length (whitespace_split s nrsplits) = nat nrsplits + 1"
proof -
  from assms have "length (split s nrsplits) \<le> Suc (nat nrsplits)"
    by (simp add: split_def length_split_ws)
  with assms show ?thesis
    by (auto simp: whitespace_split_def Let_def)
qed

theorem whitespace_split_length_witness:
  "(0::int) \<le> 2 \<and> length (whitespace_split ''f'' 2) = 3 \<and> whitespace_split ''f'' 2 = [''f'', [], []]"
proof -
  have "whitespace_split ''f'' 2 = [''f'', [], []]" by code_simp
  with whitespace_split_length [of 2 "''f''"] show ?thesis by simp
qed

text \<open>
  X2: while \<^verbatim>\<open>fileinput\<close> is active, a SyntaxError or ValueError raised by the body of the
  \<^verbatim>\<open>try\<close> statement for a line leaves the loop as an error of the same class, whose message
  is the original message, a space, and the position: the raw line alone when
  \<^verbatim>\<open>fileinput.filename()\<close> is \<^verbatim>\<open>None\<close>, the file name, the line number and the raw line
  otherwise. An exception of another class leaves the loop unchanged.
\<close>

theorem handler_adds_position:
  assumes "process_line names line st = Inl err" and "fi n = Position filename lineno"
  shows "read_lines names fi n (line # lines) st =
     Inl (let arg = (case filename of
                       None \<Rightarrow> ''[happened on input line: '' @ repr line @ '']''
                     | Some name \<Rightarrow>
                         ''[happened in input file '' @ repr name @ '', line '' @
                         str_int lineno @ '': '' @ repr line @ '']'')
          in case err of
               SyntaxError msg \<Rightarrow> SyntaxError (msg @ '' '' @ arg)
             | ValueError msg \<Rightarrow> ValueError (msg @ '' '' @ arg)
             | _ \<Rightarrow> err)"
  using assms
  by (cases filename; cases err) (simp_all add: handler_def happened_def)

theorem handler_adds_position_witness:
  "\<forall>names.
   process_line names ''f abc'' initial_state =
     Inl (SyntaxError (''Not a correct score: '' @ QUOTE # ''abc'' @ [QUOTE]))
   \<and> stdin 0 = Position (Some ''<stdin>'') 1
   \<and> read_lines names stdin 0 [''f abc''] initial_state =
     Inl (SyntaxError (''Not a correct score: '' @ QUOTE # ''abc'' @ QUOTE #
            '' [happened in input file '' @ QUOTE # ''<stdin>'' @ QUOTE # '', line 1: '' @
            QUOTE # ''f abc'' @ QUOTE # '']''))"
proof
  fix names :: "string \<Rightarrow> nat option"
  have p: "process_line names ''f abc'' initial_state =
     Inl (SyntaxError (''Not a correct score: '' @ QUOTE # ''abc'' @ [QUOTE]))"
    by code_simp
  have s: "stdin 0 = Position (Some ''<stdin>'') 1"
    by (simp add: stdin_def)
  have r: "repr ''<stdin>'' = QUOTE # ''<stdin>'' @ [QUOTE]"
    "repr ''f abc'' = QUOTE # ''f abc'' @ [QUOTE]" "str_int 1 = ''1''"
    by code_simp+
  from handler_adds_position [where fi = stdin and n = 0 and lines = "[]" and names = names
         and line = "''f abc''" and st = initial_state, OF p s] r p s
  show
    "process_line names ''f abc'' initial_state =
     Inl (SyntaxError (''Not a correct score: '' @ QUOTE # ''abc'' @ [QUOTE]))
   \<and> stdin 0 = Position (Some ''<stdin>'') 1
   \<and> read_lines names stdin 0 [''f abc''] initial_state =
     Inl (SyntaxError (''Not a correct score: '' @ QUOTE # ''abc'' @ QUOTE #
            '' [happened in input file '' @ QUOTE # ''<stdin>'' @ QUOTE # '', line 1: '' @
            QUOTE # ''f abc'' @ QUOTE # '']''))"
    by simp
qed

section \<open>The claims that the code breaks\<close>

text \<open>
  C8: a pragma line that is the marker followed by nothing must record a pragma with no
  name, the key \<^verbatim>\<open>None\<close>. For the line \<^verbatim>\<open>:\<close> with no line feed, the last line of a file that
  does not end with one, the program records the key \<^verbatim>\<open>''\<close>, the empty name:
  \<^verbatim>\<open>rest[1:2]\<close> is empty and \<^verbatim>\<open>''.isspace()\<close> is false (line 139), so the line is split as a
  named pragma. The same line with its line feed gets the key \<^verbatim>\<open>None\<close>. \<^verbatim>\<open>write_grammar\<close>
  prints the two keys alike (line 286), so reading the printed text of the first grammar
  gives the second.
\<close>

theorem bare_marker_pragma:
  "read_grammar names stdin ['':''] True =
     ([], Inr \<lparr>pragmas = [(Some [], [[]])], functions' = [], linearizations = [],
              sequences = [], scores = [], nonterms = []\<rparr>)
   \<and> read_grammar names stdin ['':'' @ [NEWLINE]] True =
     ([], Inr \<lparr>pragmas = [(None, [[]])], functions' = [], linearizations = [],
              sequences = [], scores = [], nonterms = []\<rparr>)
   \<and> write_grammar \<lparr>pragmas = [(Some [], [[]])], functions' = [], linearizations = [],
              sequences = [], scores = [], nonterms = []\<rparr> =
     ([[NEWLINE], ''# Pragmas'' @ [NEWLINE], '': '' @ [NEWLINE], [NEWLINE],
       ''# Functions/rules'' @ [NEWLINE], [NEWLINE], ''# Linearizations'' @ [NEWLINE],
       [NEWLINE], ''# Sequences'' @ [NEWLINE], [NEWLINE], ''# Sequences'' @ [NEWLINE],
       [NEWLINE]],
      None)
   \<and> read_grammar names stdin
       (text_lines (concat
         [[NEWLINE], ''# Pragmas'' @ [NEWLINE], '': '' @ [NEWLINE], [NEWLINE],
       ''# Functions/rules'' @ [NEWLINE], [NEWLINE], ''# Linearizations'' @ [NEWLINE],
       [NEWLINE], ''# Sequences'' @ [NEWLINE], [NEWLINE], ''# Sequences'' @ [NEWLINE],
       [NEWLINE]]))
       True =
     ([], Inr \<lparr>pragmas = [(None, [[]])], functions' = [], linearizations = [],
              sequences = [], scores = [], nonterms = []\<rparr>)"
  by code_simp

text \<open>
  C2: a second linearization for an identifier must raise a ValueError. For the lines
  \<^verbatim>\<open>f = a\<close> and \<^verbatim>\<open>f = b\<close> the program raises a TypeError instead: the message of the
  intended ValueError is called as a function (line 173), and the handler does not catch
  the TypeError.
\<close>

theorem duplicate_linearization_type_error:
  "read_grammar names stdin [''f = a'', ''f = b''] True =
     ([], Inl (TypeError (QUOTE # ''str'' @ QUOTE # '' object is not callable'')))"
  by code_simp

text \<open>
  C6: no error must leave \<^verbatim>\<open>read_grammar\<close> without the position of the line. For the lines
  \<^verbatim>\<open>f 1\<close> and \<^verbatim>\<open>f 2\<close> the duplicate score raises a TypeError (line 208, the same slip as at
  line 173) that leaves \<^verbatim>\<open>read_grammar\<close> as it is, with no position.
\<close>

theorem duplicate_score_escapes_handler:
  "read_grammar names stdin [''f 1'', ''f 2''] True =
     ([], Inl (TypeError (QUOTE # ''str'' @ QUOTE # '' object is not callable'')))"
  by code_simp

text \<open>
  C4: an identifier must not be a nonterminal and a sequence at once. The lines
  \<^verbatim>\<open>f : S <-\<close>, \<^verbatim>\<open>S -> 'a'\<close> and \<^verbatim>\<open>f = S\<close> are read with no error and no warning, and
  \<^verbatim>\<open>S\<close>, the left-hand side of the rule, ends with a sequence body and an arity as a
  nonterminal: the rule does not enter its left-hand side into \<^verbatim>\<open>nonterms\<close>, so the check
  of the sequence line (line 194) does not see it.
\<close>

theorem lhs_nonterminal_with_sequence_body:
  "read_grammar names stdin [''f : S <-'', ''S -> '' @ QUOTE # ''a'' @ [QUOTE], ''f = S''] True =
     ([], Inr \<lparr>pragmas = [], functions' = [(''f'', [(''S'', [])])],
              linearizations = [(''f'', [''S''])],
              sequences = [(''S'', Some [Terminal (ustr ''a'')])], scores = [],
              nonterms = [(''S'', Some 1)]\<rparr>)"
  by code_simp

text \<open>
  C5: the deferred sweep must warn and never raise. For the lines \<^verbatim>\<open>f : S <-\<close>,
  \<^verbatim>\<open>f = s\<close> and \<^verbatim>\<open>s -> 0:0\<close> it gives the warning for the argument out of range and then
  reads \<^verbatim>\<open>rhs[0]\<close> in the empty right-hand side (line 246): an IndexError. For the lines
  \<^verbatim>\<open>f : S <-\<close> and \<^verbatim>\<open>f = s\<close>, where the sequence \<^verbatim>\<open>s\<close> has no body, it warns and then
  reads \<^verbatim>\<open>seq_arities['s']\<close> (line 237): a KeyError.
\<close>

theorem sweep_raises:
  "read_grammar names stdin [''f : S <-'', ''f = s'', ''s -> 0:0''] True =
     ([''Linearization for '' @ QUOTE # ''f'' @ QUOTE # '' refers to argument #0, but must be <0''],
      Inl (IndexError ''list index out of range''))
   \<and> read_grammar names stdin [''f : S <-'', ''f = s''] True =
     ([''Undefined sequences: s''], Inl (KeyError ''s''))"
  by code_simp

text \<open>
  C1: writing a grammar and reading the text again must give the grammar back. The lines
  \<^verbatim>\<open>f : S <-\<close>, \<^verbatim>\<open>f = s\<close> and \<^verbatim>\<open>s -> 'a'\<close> are read with no warning; \<^verbatim>\<open>write_grammar\<close>
  prints the block of the sequences twice (lines 304 to 310 repeat lines 300 to 306), and
  \<^verbatim>\<open>read_grammar\<close> refuses the second line of \<^verbatim>\<open>s\<close> in the printed text as a duplicate.
\<close>

theorem write_then_read_duplicate_sequence:
  "read_grammar names stdin [''f : S <-'', ''f = s'', ''s -> '' @ QUOTE # ''a'' @ [QUOTE]] True =
     ([], Inr \<lparr>pragmas = [], functions' = [(''f'', [(''S'', [])])],
              linearizations = [(''f'', [''s''])],
              sequences = [(''s'', Some [Terminal (ustr ''a'')])], scores = [],
              nonterms = [(''S'', Some 1)]\<rparr>)
   \<and> write_grammar \<lparr>pragmas = [], functions' = [(''f'', [(''S'', [])])],
              linearizations = [(''f'', [''s''])],
              sequences = [(''s'', Some [Terminal (ustr ''a'')])], scores = [],
              nonterms = [(''S'', Some 1)]\<rparr> =
     ([[NEWLINE], ''# Functions/rules'' @ [NEWLINE], ''f : S <- '' @ [NEWLINE], [NEWLINE],
       ''# Linearizations'' @ [NEWLINE], ''f = s'' @ [NEWLINE], [NEWLINE],
       ''# Sequences'' @ [NEWLINE], ''s -> '' @ QUOTE # ''a'' @ [QUOTE, NEWLINE], [NEWLINE],
       ''# Sequences'' @ [NEWLINE], ''s -> '' @ QUOTE # ''a'' @ [QUOTE, NEWLINE], [NEWLINE]],
      None)
   \<and> read_grammar names stdin
       (text_lines (concat
         [[NEWLINE], ''# Functions/rules'' @ [NEWLINE], ''f : S <- '' @ [NEWLINE], [NEWLINE],
          ''# Linearizations'' @ [NEWLINE], ''f = s'' @ [NEWLINE], [NEWLINE],
          ''# Sequences'' @ [NEWLINE], ''s -> '' @ QUOTE # ''a'' @ [QUOTE, NEWLINE], [NEWLINE],
          ''# Sequences'' @ [NEWLINE], ''s -> '' @ QUOTE # ''a'' @ [QUOTE, NEWLINE], [NEWLINE]]))
       True =
     ([], Inl (ValueError
        (''Duplicate sequence for '' @ QUOTE # ''s'' @ QUOTE #
         '' [happened in input file '' @ QUOTE # ''<stdin>'' @ QUOTE # '', line 12: '' @
         DQUOTE # ''s -> '' @ QUOTE # ''a'' @ QUOTE # BACKSLASH # ''n'' @ DQUOTE # '']'')))"
  by code_simp

end
